theory Spec2Isabelle
  imports Main "HOL-Library.Word"
begin

unbundle bit_operations_syntax

section \<open>The WavPack import adapter (src/import/ImportWavPack.cpp)\<close>

text \<open>
  The adapter sits between two collaborators whose code is not part of the file: the
  WavPack decoding library (\<^verbatim>\<open>wavpack.h\<close>) and the host application (tracks, tags,
  progress dialog, wxWidgets strings). Both are taken as parameters: what the library
  answers for one opened file is a record \<open>WavpackContext\<close>, everything else a record
  \<open>env\<close>. The adapter's own code is translated function by function.
\<close>

subsection \<open>Host types\<close>

text \<open>\<^verbatim>\<open>enum class ProgressResult\<close> of the host's progress dialog; \<^verbatim>\<open>Update\<close> returns one.\<close>

datatype ProgressResult = Cancelled | Success | Failed | Stopped

text \<open>The three values of the host's \<^verbatim>\<open>sampleFormat\<close> that the adapter uses.\<close>

datatype sampleFormat = int16Sample | int24Sample | floatSample

text \<open>
  Modelled from the spec: the host's \<^verbatim>\<open>WaveTrack\<close> (\<^verbatim>\<open>../WaveTrack.h\<close> is not part of
  the file). The spec calls it the "internal multi-channel track representation" holding
  "raw decoded audio amplitude values, one sequence per channel". A track is created with
  a sample format and a rate, receives samples by \<^verbatim>\<open>Append\<close> and is closed by
  \<^verbatim>\<open>Flush\<close>. \<^verbatim>\<open>Append(addr, format, 1)\<close> is handed the address of one 32-bit cell of
  the decode buffer; the track records the cell it was handed. How the host reads the
  bytes at that address under \<open>format\<close> is the host's business and is not modelled.
\<close>

record WaveTrack =
  format :: sampleFormat
  rate :: "32 word"
  samples :: "32 word list"
  flushed :: bool

definition NewWaveTrack :: "sampleFormat \<Rightarrow> 32 word \<Rightarrow> WaveTrack" where
  "NewWaveTrack fmt r = \<lparr>format = fmt, rate = r, samples = [], flushed = False\<rparr>"

definition Append :: "WaveTrack \<Rightarrow> 32 word \<Rightarrow> sampleFormat \<Rightarrow> WaveTrack" where
  "Append t v fmt = t\<lparr>samples := samples t @ [v]\<rparr>"

definition Flush :: "WaveTrack \<Rightarrow> WaveTrack" where
  "Flush t = t\<lparr>flushed := True\<rparr>"

text \<open>
  Modelled from the spec: the host's \<^verbatim>\<open>Tags\<close> (\<^verbatim>\<open>../Tags.h\<close> is not part of the file),
  "the host's key/value metadata container": a finite map from tag names to values with
  the three operations the adapter calls.
\<close>

type_synonym Tags = "string \<rightharpoonup> string"

definition Clear :: "Tags \<Rightarrow> Tags" where
  "Clear t = Map.empty"

definition HasTag :: "Tags \<Rightarrow> string \<Rightarrow> bool" where
  "HasTag t n = (t n \<noteq> None)"

definition SetTag :: "Tags \<Rightarrow> string \<Rightarrow> string \<Rightarrow> Tags" where
  "SetTag t n v = t(n \<mapsto> v)"

subsection \<open>The decoding library, as seen through one opened file\<close>

text \<open>
  Each field is the answer of the library function of the same name on this context.
  \<^item> \<open>WavpackGetNumChannels\<close> and the other \<^verbatim>\<open>int\<close> results are kept as the 32 bits the
    library returns (\<open>sint\<close> reads them as the \<^verbatim>\<open>int\<close>, \<open>unat\<close> as the value after
    C's conversion to \<^verbatim>\<open>unsigned\<close>); \<open>WavpackGetNumSamples64\<close> is an \<^verbatim>\<open>int64_t\<close>.
  \<^item> \<open>WavpackUnpackSamples k req\<close> is the \<open>k\<close>-th call (counted from 0) asking for
    \<open>req\<close> frames: the \<^verbatim>\<open>uint32_t\<close> it returns and the cells it writes at the start of
    the caller's buffer.
  \<^item> \<open>WavpackGetTagItemIndexed i\<close> is the key of tag item \<open>i\<close> and
    \<open>WavpackGetTagItem key\<close> the bytes of the value stored under \<open>key\<close> (its length is
    what the call with a null buffer returns).
\<close>

record WavpackContext =
  WavpackGetNumChannels :: "32 word"
  WavpackGetSampleRate :: "32 word"
  WavpackGetBitsPerSample :: "32 word"
  WavpackGetBytesPerSample :: "32 word"
  WavpackGetNumSamples64 :: "64 word"
  WavpackGetMode :: "32 word"
  WavpackGetNumTagItems :: "32 word"
  WavpackGetTagItemIndexed :: "nat \<Rightarrow> string"
  WavpackGetTagItem :: "string \<Rightarrow> string"
  WavpackUnpackSamples :: "nat \<Rightarrow> nat \<Rightarrow> 32 word \<times> 32 word list"

text \<open>
  What the adapter uses and the file does not define: the flag constants of
  \<^verbatim>\<open>wavpack.h\<close>, the library's open call (\<open>None\<close> is the null context), the host's
  \<^verbatim>\<open>TAG_YEAR\<close> and \<^verbatim>\<open>UTF8CTOWX\<close> macros, \<^verbatim>\<open>wxString::Upper\<close> and
  \<^verbatim>\<open>wxString::ToLong\<close> (whether the string parses as a \<^verbatim>\<open>long\<close>), and the progress
  dialog: \<open>Update k\<close> is what the \<open>k\<close>-th call of \<^verbatim>\<open>mProgress->Update\<close> returns.
\<close>

record env =
  OPEN_WVC :: "32 word"
  OPEN_FILE_UTF8 :: "32 word"
  OPEN_TAGS :: "32 word"
  MODE_VALID_TAG :: "32 word"
  MODE_APETAG :: "32 word"
  WavpackOpenFileInput :: "string \<Rightarrow> 32 word \<Rightarrow> WavpackContext option"
  TAG_YEAR :: string
  UTF8CTOWX :: "string \<Rightarrow> string"
  Upper :: "string \<Rightarrow> string"
  ToLong :: "string \<Rightarrow> bool"
  Update :: "nat \<Rightarrow> ProgressResult"

subsection \<open>The plugin and the file handle\<close>

definition exts :: "string list" where
  "exts = [''wv'']"

record WavPackImportPlugin =
  extensions :: "string list"

definition WavPackImportPlugin_ctor :: WavPackImportPlugin where
  "WavPackImportPlugin_ctor = \<lparr>extensions = exts\<rparr>"

definition GetPluginStringID :: "WavPackImportPlugin \<Rightarrow> string" where
  "GetPluginStringID p = ''libwavpack''"

record WavPackImportFileHandle =
  mFilename :: string
  mWavPackContext :: WavpackContext
  mNumChannels :: "32 word"
  mSampleRate :: "32 word"
  mBitsPerSample :: "32 word"
  mBytesPerSample :: "32 word"
  mNumSamples :: "64 word"
  mFormat :: sampleFormat

text \<open>The constructor: the \<^verbatim>\<open>int\<close> comparisons are signed.\<close>

definition WavPackImportFileHandle_ctor :: "string \<Rightarrow> WavpackContext \<Rightarrow> WavPackImportFileHandle" where
  "WavPackImportFileHandle_ctor filename wavpackContext =
     \<lparr>mFilename = filename,
      mWavPackContext = wavpackContext,
      mNumChannels = WavpackGetNumChannels wavpackContext,
      mSampleRate = WavpackGetSampleRate wavpackContext,
      mBitsPerSample = WavpackGetBitsPerSample wavpackContext,
      mBytesPerSample = WavpackGetBytesPerSample wavpackContext,
      mNumSamples = WavpackGetNumSamples64 wavpackContext,
      mFormat =
        (if sint (WavpackGetBitsPerSample wavpackContext) \<le> 16 then int16Sample
         else if sint (WavpackGetBitsPerSample wavpackContext) \<le> 24 then int24Sample
         else floatSample)\<rparr>"

text \<open>\<^verbatim>\<open>WavPackImportPlugin::Open\<close>: \<open>None\<close> is \<^verbatim>\<open>nullptr\<close>.\<close>

definition Open :: "env \<Rightarrow> string \<Rightarrow> WavPackImportFileHandle option" where
  "Open e filename =
     (let flags = OPEN_WVC e OR OPEN_FILE_UTF8 e OR OPEN_TAGS e
      in case WavpackOpenFileInput e filename flags of
           None \<Rightarrow> None
         | Some wavpackContext \<Rightarrow> Some (WavPackImportFileHandle_ctor filename wavpackContext))"

definition GetStreamCount :: "WavPackImportFileHandle \<Rightarrow> 32 word" where
  "GetStreamCount h = 1"

definition GetFileUncompressedBytes :: "WavPackImportFileHandle \<Rightarrow> nat" where
  "GetFileUncompressedBytes h = 0"

subsection \<open>The decode loop of \<^verbatim>\<open>Import\<close>\<close>

text \<open>
  What can go wrong below the level of return codes: \<^verbatim>\<open>mChannels.resize\<close> with a
  negative channel count (converted to \<^verbatim>\<open>size_t\<close> it exceeds every vector's maximal
  size), and an access outside the decode buffer or past the end of \<^verbatim>\<open>mChannels\<close>.
\<close>

datatype error = LengthError | OutOfBounds

text \<open>\<^verbatim>\<open>#define SAMPLES_TO_READ 100000\<close>\<close>

definition SAMPLES_TO_READ :: nat where
  "SAMPLES_TO_READ = 100000"

text \<open>
  \<^verbatim>\<open>ArrayOf<int32_t> wavpackBuffer{ bufferSize }\<close>: \<open>count\<close> cells, addressed from 0. The
  cells are a function rather than a list, since the buffer has 100000 cells per channel.
\<close>

record int32_array =
  count :: nat
  cell :: "nat \<Rightarrow> 32 word"

text \<open>The library writing the cells \<open>dat\<close> at the start of the buffer.\<close>

definition write_cells :: "32 word list \<Rightarrow> int32_array \<Rightarrow> int32_array" where
  "write_cells dat buf = buf\<lparr>cell := (\<lambda>i. if i < length dat then dat ! i else cell buf i)\<rparr>"

text \<open>
  The inner \<^verbatim>\<open>for (unsigned chn = 0; chn < mNumChannels; ++iter, ++c, ++chn)\<close>: \<open>n\<close> is
  \<^verbatim>\<open>mNumChannels\<close> converted to \<^verbatim>\<open>unsigned\<close>, \<open>iter\<close> is position \<open>chn\<close> of
  \<^verbatim>\<open>mChannels\<close>. The counters are naturals: \<open>chn\<close> stays below \<open>n < 2 ^ 32\<close> and the
  \<^verbatim>\<open>int64_t\<close> \<open>c\<close> below \<open>2 ^ 33\<close>. It returns the advanced \<open>c\<close> and the channels.
\<close>

function append_frame ::
  "nat \<Rightarrow> sampleFormat \<Rightarrow> int32_array \<Rightarrow> nat \<Rightarrow> nat \<Rightarrow> WaveTrack list \<Rightarrow> error + nat \<times> WaveTrack list" where
  "append_frame n fmt buf chn c chans =
     (if chn < n then
        (if chn < length chans \<and> c < count buf
         then append_frame n fmt buf (chn + 1) (c + 1)
                (chans[chn := Append (chans ! chn) (cell buf c) fmt])
         else Inl OutOfBounds)
      else Inr (c, chans))"
  by pat_completeness auto
termination
  by (relation "measure (\<lambda>(n, fmt, buf, chn, c, chans). n - chn)") auto

lemma append_frame_advances:
  "append_frame n fmt buf chn c chans = Inr (c', chans') \<Longrightarrow> c' = c + (n - chn)"
proof (induction n fmt buf chn c chans rule: append_frame.induct)
  case (1 n fmt buf chn c chans)
  show ?case
  proof (cases "chn < n")
    case True
    with "1.prems" have ok: "chn < length chans \<and> c < count buf"
      by (auto split: if_splits)
    from True ok "1.prems" have
      "append_frame n fmt buf (chn + 1) (c + 1)
         (chans[chn := Append (chans ! chn) (cell buf c) fmt]) = Inr (c', chans')"
      by simp
    with "1.IH" True ok have "c' = c + 1 + (n - (chn + 1))"
      by blast
    with True show ?thesis by simp
  next
    case False
    with "1.prems" show ?thesis by simp
  qed
qed

text \<open>
  The outer \<^verbatim>\<open>for (int64_t c = 0; c < samplesRead * mNumChannels;)\<close>. The product is
  taken in \<^verbatim>\<open>uint32_t\<close> (\<^verbatim>\<open>mNumChannels\<close> is converted), so it wraps; it is then
  compared with \<open>c\<close> as a non-negative \<^verbatim>\<open>int64_t\<close>.
\<close>

function deinterleave ::
  "32 word \<Rightarrow> sampleFormat \<Rightarrow> int32_array \<Rightarrow> 32 word \<Rightarrow> nat \<Rightarrow> WaveTrack list \<Rightarrow> error + WaveTrack list" where
  "deinterleave numChannels fmt buf samplesRead c chans =
     (if c < unat (samplesRead * numChannels) then
        (case append_frame (unat numChannels) fmt buf 0 c chans of
           Inl err \<Rightarrow> Inl err
         | Inr (c', chans') \<Rightarrow> deinterleave numChannels fmt buf samplesRead c' chans')
      else Inr chans)"
  by pat_completeness auto
termination
proof (relation "measure (\<lambda>(numChannels, fmt, buf, samplesRead, c, chans).
                     unat (samplesRead * numChannels) - c)", goal_cases)
  case 1
  show ?case by simp
next
  case (2 numChannels fmt buf samplesRead c chans x2 c' chans')
  from 2(2,3) have "append_frame (unat numChannels) fmt buf 0 c chans = Inr (c', chans')"
    by (simp del: append_frame.simps)
  then have adv: "c' = c + unat numChannels"
    using append_frame_advances [of "unat numChannels" fmt buf 0 c chans c' chans']
    by (simp del: append_frame.simps)
  from 2(1) have "numChannels \<noteq> 0" by auto
  then have "0 < unat numChannels" by (simp add: unat_gt_0)
  with adv 2(1) show ?case by simp
qed

text \<open>
  The locals of \<^verbatim>\<open>Import\<close> that the \<^verbatim>\<open>do \<dots> while\<close> loop changes, and \<open>unpackLog\<close>:
  the frame counts requested from the library so far, one entry per iteration.
\<close>

record decode_state =
  mChannels :: "WaveTrack list"
  wavpackBuffer :: int32_array
  totalSamplesRead :: "32 word"
  samplesRead :: "32 word"
  updateResult :: ProgressResult
  unpackLog :: "nat list"

text \<open>
  One run of the loop body. The iteration number indexes the answers of the library and
  of the progress dialog. \<^verbatim>\<open>totalSamplesRead += samplesRead\<close> is \<^verbatim>\<open>uint32_t\<close>
  addition.
\<close>

definition decode_step :: "env \<Rightarrow> WavPackImportFileHandle \<Rightarrow> decode_state \<Rightarrow> error + decode_state" where
  "decode_step e h st =
     (let k = length (unpackLog st);
          (r, dat) = WavpackUnpackSamples (mWavPackContext h) k SAMPLES_TO_READ
      in if count (wavpackBuffer st) < length dat then Inl OutOfBounds
         else
           let buf = write_cells dat (wavpackBuffer st)
           in case deinterleave (mNumChannels h) (mFormat h) buf r 0 (mChannels st) of
                Inl err \<Rightarrow> Inl err
              | Inr chans \<Rightarrow>
                  Inr \<lparr>mChannels = chans,
                       wavpackBuffer = buf,
                       totalSamplesRead = totalSamplesRead st + r,
                       samplesRead = r,
                       updateResult = Update e k,
                       unpackLog = unpackLog st @ [SAMPLES_TO_READ]\<rparr>)"

text \<open>
  \<^verbatim>\<open>do { \<dots> } while (updateResult == ProgressResult::Success && samplesRead != 0)\<close>.
  Nothing in the adapter bounds the number of iterations, so the loop is a partial
  function: \<open>None\<close> is the loop that never ends.
\<close>

partial_function (option) decode_loop ::
  "env \<Rightarrow> WavPackImportFileHandle \<Rightarrow> decode_state \<Rightarrow> (error + decode_state) option" where
  "decode_loop e h st =
     (case decode_step e h st of
        Inl err \<Rightarrow> Some (Inl err)
      | Inr st' \<Rightarrow>
          if updateResult st' = Success \<and> samplesRead st' \<noteq> 0
          then decode_loop e h st'
          else Some (Inr st'))"

text \<open>
  The state before the loop. \<^verbatim>\<open>mChannels.resize(mNumChannels)\<close> and the loop after it
  leave one new track per channel; \<^verbatim>\<open>bufferSize = mNumChannels * SAMPLES_TO_READ\<close> is
  computed in 32 bits. The cells of the new buffer are not initialised: \<open>junk\<close> is
  whatever they hold.
\<close>

definition decode_init :: "(nat \<Rightarrow> 32 word) \<Rightarrow> WavPackImportFileHandle \<Rightarrow> decode_state" where
  "decode_init junk h =
     \<lparr>mChannels = replicate (unat (mNumChannels h)) (NewWaveTrack (mFormat h) (mSampleRate h)),
      wavpackBuffer = \<lparr>count = unat (mNumChannels h * of_nat SAMPLES_TO_READ), cell = junk\<rparr>,
      totalSamplesRead = 0,
      samplesRead = 0,
      updateResult = Success,
      unpackLog = []\<rparr>"

subsection \<open>Copying the tags\<close>

text \<open>
  A C string ends at its first NUL byte: what \<^verbatim>\<open>UTF8CTOWX\<close> sees of a \<^verbatim>\<open>char*\<close>.
\<close>

definition cstr :: "string \<Rightarrow> string" where
  "cstr bytes = takeWhile (\<lambda>ch. ch \<noteq> CHR 0x00) bytes"

text \<open>
  The value of the item with key \<open>item\<close>: the loop over \<open>j < valueLen\<close> replaces
  the NUL bytes of an APE tag by a backslash, then the buffer is read as a C string.
\<close>

definition tag_value :: "env \<Rightarrow> WavpackContext \<Rightarrow> bool \<Rightarrow> string \<Rightarrow> string" where
  "tag_value e ctx apeTag item =
     (let itemValue = WavpackGetTagItem ctx item;
          itemValue' = (if apeTag
                        then map (\<lambda>ch. if ch = CHR 0x00 then CHR 0x5C else ch) itemValue
                        else itemValue)
      in UTF8CTOWX e (cstr itemValue'))"

text \<open>
  The body of the loop over the tag items, for index \<open>i\<close>. \<open>item\<close> is the key buffer,
  read as a C string both by \<^verbatim>\<open>UTF8CTOWX\<close> and by the library's lookup of the value.
\<close>

definition copy_tag_item :: "env \<Rightarrow> WavpackContext \<Rightarrow> bool \<Rightarrow> Tags \<Rightarrow> nat \<Rightarrow> Tags" where
  "copy_tag_item e ctx apeTag tags i =
     (let item = cstr (WavpackGetTagItemIndexed ctx i);
          name = UTF8CTOWX e item;
          value = tag_value e ctx apeTag item;
          name' = (if Upper e name = ''DATE'' \<and> \<not> HasTag tags (TAG_YEAR e)
                   then (if length value = 4 \<and> ToLong e value then TAG_YEAR e else name)
                   else name)
      in SetTag tags name' value)"

text \<open>\<^verbatim>\<open>for (int i = 0; i < numItems; i++)\<close>\<close>

function copy_tags :: "env \<Rightarrow> WavpackContext \<Rightarrow> bool \<Rightarrow> int \<Rightarrow> nat \<Rightarrow> Tags \<Rightarrow> Tags" where
  "copy_tags e ctx apeTag numItems i tags =
     (if int i < numItems
      then copy_tags e ctx apeTag numItems (i + 1) (copy_tag_item e ctx apeTag tags i)
      else tags)"
  by pat_completeness auto
termination
  by (relation "measure (\<lambda>(e, ctx, apeTag, numItems, i, tags). nat numItems - i)") auto

subsection \<open>\<^verbatim>\<open>WavPackImportFileHandle::Import\<close>\<close>

text \<open>What a call of \<^verbatim>\<open>Import\<close> leaves: its return value and its two out-parameters.\<close>

record import_result =
  result :: ProgressResult
  outTracks :: "WaveTrack list list"
  tags :: Tags

text \<open>
  The code after the loop, from the completeness check on. \<open>uint\<close> is the conversion of
  the \<^verbatim>\<open>uint32_t\<close> total to \<^verbatim>\<open>int64_t\<close> for the comparison with \<^verbatim>\<open>mNumSamples\<close>.
  \<open>outTracks0\<close> and \<open>tags0\<close> are the out-parameters as the caller passed them;
  \<^verbatim>\<open>outTracks.clear()\<close> has emptied the first.
\<close>

definition Import_finish ::
  "env \<Rightarrow> WavPackImportFileHandle \<Rightarrow> decode_state \<Rightarrow> WaveTrack list list \<Rightarrow> Tags \<Rightarrow> import_result" where
  "Import_finish e h st outTracks0 tags0 =
     (let cleared = [];
          updateResult' =
            (if updateResult st \<noteq> Stopped \<and> uint (totalSamplesRead st) < sint (mNumSamples h)
             then Failed else updateResult st)
      in if updateResult' = Failed \<or> updateResult' = Cancelled
         then \<lparr>result = updateResult', outTracks = cleared, tags = tags0\<rparr>
         else
           let channels = map Flush (mChannels st);
               out = (if channels \<noteq> [] then cleared @ [channels] else cleared);
               wavpackMode = WavpackGetMode (mWavPackContext h)
           in if wavpackMode AND MODE_VALID_TAG e \<noteq> 0
              then
                let apeTag = (wavpackMode AND MODE_APETAG e \<noteq> 0);
                    numItems = sint (WavpackGetNumTagItems (mWavPackContext h))
                in if 0 < numItems
                   then \<lparr>result = updateResult', outTracks = out,
                         tags = copy_tags e (mWavPackContext h) apeTag numItems 0 (Clear tags0)\<rparr>
                   else \<lparr>result = updateResult', outTracks = out, tags = tags0\<rparr>
              else \<lparr>result = updateResult', outTracks = out, tags = tags0\<rparr>)"

text \<open>
  \<^verbatim>\<open>Import\<close>: \<open>None\<close> when the decode loop never ends, \<open>Inl\<close> when the call leaves the
  defined behaviour of C++, otherwise what it returns and leaves in its out-parameters.
\<close>

definition Import ::
  "env \<Rightarrow> (nat \<Rightarrow> 32 word) \<Rightarrow> WavPackImportFileHandle \<Rightarrow> WaveTrack list list \<Rightarrow> Tags
    \<Rightarrow> (error + import_result) option" where
  "Import e junk h outTracks0 tags0 =
     (if sint (mNumChannels h) < 0 then Some (Inl LengthError)
      else case decode_loop e h (decode_init junk h) of
             None \<Rightarrow> None
           | Some (Inl err) \<Rightarrow> Some (Inl err)
           | Some (Inr st) \<Rightarrow> Some (Inr (Import_finish e h st outTracks0 tags0)))"

subsection \<open>Notions the properties are stated with\<close>

text \<open>
  The library's answer to the call of iteration \<open>k\<close> of the decode loop: the number of
  frames it reports and the cells it writes.
\<close>

definition frames_read :: "WavPackImportFileHandle \<Rightarrow> nat \<Rightarrow> 32 word" where
  "frames_read h k = fst (WavpackUnpackSamples (mWavPackContext h) k SAMPLES_TO_READ)"

definition cells_written :: "WavPackImportFileHandle \<Rightarrow> nat \<Rightarrow> 32 word list" where
  "cells_written h k = snd (WavpackUnpackSamples (mWavPackContext h) k SAMPLES_TO_READ)"

text \<open>
  What the library promises for the call of iteration \<open>k\<close>: at most the requested number
  of frames, and one cell per frame and channel.
\<close>

definition library_contract :: "WavPackImportFileHandle \<Rightarrow> nat \<Rightarrow> bool" where
  "library_contract h k \<longleftrightarrow>
     unat (frames_read h k) \<le> SAMPLES_TO_READ
     \<and> length (cells_written h k) = unat (frames_read h k) * unat (mNumChannels h)"

text \<open>
  Stated from the specification's words, to compare the code with: in a chunk of
  \<open>frames\<close> frames for \<open>n\<close> channels, the samples of channel \<open>chn\<close> are the
  interleaved elements \<open>f * n + chn\<close> for \<open>f\<close> from 0, in order; a channel's sequence
  after \<open>m\<close> chunks is the concatenation of its samples in each chunk.
\<close>

definition chunk_channel :: "nat \<Rightarrow> 32 word list \<Rightarrow> nat \<Rightarrow> nat \<Rightarrow> 32 word list" where
  "chunk_channel n dat frames chn = map (\<lambda>f. dat ! (f * n + chn)) [0..<frames]"

definition channel_sequence :: "WavPackImportFileHandle \<Rightarrow> nat \<Rightarrow> nat \<Rightarrow> 32 word list" where
  "channel_sequence h chn m =
     concat (map (\<lambda>k. chunk_channel (unat (mNumChannels h)) (cells_written h k)
                         (unat (frames_read h k)) chn) [0..<m])"





declare append_frame.simps [simp del]
declare deinterleave.simps [simp del]
declare copy_tags.simps [simp del]

subsection \<open>A concrete file\<close>

text \<open>
  A stereo 16-bit file of three frames that the library delivers in chunks of two, one
  and zero frames, with an APE tag of three items; the host's answers are listed for the
  strings that occur. The constants are those of \<^verbatim>\<open>wavpack.h\<close>.
\<close>

definition stereo_ctx :: WavpackContext where
  "stereo_ctx =
     \<lparr>WavpackGetNumChannels = 2,
      WavpackGetSampleRate = 44100,
      WavpackGetBitsPerSample = 16,
      WavpackGetBytesPerSample = 2,
      WavpackGetNumSamples64 = 3,
      WavpackGetMode = 0x110,
      WavpackGetNumTagItems = 3,
      WavpackGetTagItemIndexed = (\<lambda>i. if i = 0 then ''Title'' else if i = 1 then ''Date'' else ''Artist''),
      WavpackGetTagItem =
        (\<lambda>key. if key = ''Title'' then ''Song''
               else if key = ''Date'' then ''2021''
               else if key = ''Artist'' then [CHR ''A'', CHR 0x00, CHR ''B'']
               else []),
      WavpackUnpackSamples =
        (\<lambda>k req. if k = 0 then (2, [10, 20, 11, 21])
                 else if k = 1 then (1, [12, 22])
                 else (0, []))\<rparr>"

definition host_env :: env where
  "host_env =
     \<lparr>OPEN_WVC = 0x1,
      OPEN_FILE_UTF8 = 0x80,
      OPEN_TAGS = 0x2,
      MODE_VALID_TAG = 0x10,
      MODE_APETAG = 0x100,
      WavpackOpenFileInput = (\<lambda>filename flags. if filename = ''a.wv'' then Some stereo_ctx else None),
      TAG_YEAR = ''YEAR'',
      UTF8CTOWX = (\<lambda>s. s),
      Upper = (\<lambda>s. if s = ''Date'' then ''DATE'' else if s = ''Title'' then ''TITLE'' else ''ARTIST''),
      ToLong = (\<lambda>s. s = ''2021''),
      Update = (\<lambda>k. Success)\<rparr>"

definition stereo_handle :: WavPackImportFileHandle where
  "stereo_handle = WavPackImportFileHandle_ctor ''a.wv'' stereo_ctx"

section \<open>Properties\<close>

subsection \<open>One chunk: the two loops that distribute the buffer\<close>

lemma Append_fields [simp]:
  "format (Append t v fmt) = format t" "rate (Append t v fmt) = rate t"
  "flushed (Append t v fmt) = flushed t" "samples (Append t v fmt) = samples t @ [v]"
  by (simp_all add: Append_def)

lemma append_frame_result:
  "append_frame n fmt buf chn c chans = Inr (c', chans') \<Longrightarrow> length chans = n \<Longrightarrow>
   length chans' = n \<and>
   (\<forall>j<n. format (chans' ! j) = format (chans ! j) \<and> rate (chans' ! j) = rate (chans ! j)
      \<and> flushed (chans' ! j) = flushed (chans ! j)
      \<and> samples (chans' ! j) =
          (if chn \<le> j then samples (chans ! j) @ [cell buf (c + (j - chn))] else samples (chans ! j)))"
proof (induction n fmt buf chn c chans rule: append_frame.induct)
  case (1 n fmt buf chn c chans)
  show ?case
  proof (cases "chn < n")
    case True
    with "1.prems" have ok: "chn < length chans \<and> c < count buf"
      by (auto simp: append_frame.simps [of n fmt buf chn c chans] split: if_splits)
    let ?chans1 = "chans[chn := Append (chans ! chn) (cell buf c) fmt]"
    from True ok "1.prems" have rec: "append_frame n fmt buf (chn + 1) (c + 1) ?chans1 = Inr (c', chans')"
      by (simp add: append_frame.simps [of n fmt buf chn c chans])
    from "1.prems" have len1: "length ?chans1 = n" by simp
    from "1.IH" [OF True ok rec len1]
    have IH: "length chans' = n"
      "\<And>j. j < n \<Longrightarrow> format (chans' ! j) = format (?chans1 ! j) \<and> rate (chans' ! j) = rate (?chans1 ! j)
      \<and> flushed (chans' ! j) = flushed (?chans1 ! j)
      \<and> samples (chans' ! j) =
          (if chn + 1 \<le> j then samples (?chans1 ! j) @ [cell buf (c + 1 + (j - (chn + 1)))] else samples (?chans1 ! j))"
      by blast+
    show ?thesis
    proof (intro conjI allI impI)
      show "length chans' = n" by (rule IH(1))
    next
      fix j assume j: "j < n"
      from IH(2) [OF j] "1.prems"(2) j
      show "format (chans' ! j) = format (chans ! j)"
        by (cases "j = chn") simp_all
      from IH(2) [OF j] "1.prems"(2) j
      show "rate (chans' ! j) = rate (chans ! j)"
        by (cases "j = chn") simp_all
      from IH(2) [OF j] "1.prems"(2) j
      show "flushed (chans' ! j) = flushed (chans ! j)"
        by (cases "j = chn") simp_all
      from IH(2) [OF j] "1.prems"(2) j
      show "samples (chans' ! j) =
          (if chn \<le> j then samples (chans ! j) @ [cell buf (c + (j - chn))] else samples (chans ! j))"
        by (cases "j = chn") (auto simp: Suc_diff_Suc le_Suc_eq)
    qed
  next
    case False
    with "1.prems" show ?thesis
      by (auto simp: append_frame.simps [of n fmt buf chn c chans])
  qed
qed

lemma deinterleave_result:
  "deinterleave nc fmt buf s c chans = Inr chans' \<Longrightarrow> length chans = unat nc \<Longrightarrow>
   unat (s * nc) = unat s * unat nc \<Longrightarrow> c = f0 * unat nc \<Longrightarrow>
   length chans' = unat nc \<and>
   (\<forall>j<unat nc. format (chans' ! j) = format (chans ! j) \<and> rate (chans' ! j) = rate (chans ! j)
      \<and> flushed (chans' ! j) = flushed (chans ! j)
      \<and> samples (chans' ! j) =
          samples (chans ! j) @ map (\<lambda>f. cell buf (f * unat nc + j)) [f0..<unat s])"
proof (induction nc fmt buf s c chans arbitrary: f0 rule: deinterleave.induct)
  case (1 nc fmt buf s c chans)
  let ?N = "unat nc"
  show ?case
  proof (cases "c < unat (s * nc)")
    case True
    with "1.prems"(1) obtain c1 chans1 where
      fr: "append_frame ?N fmt buf 0 c chans = Inr (c1, chans1)"
      and rec: "deinterleave nc fmt buf s c1 chans1 = Inr chans'"
      by (auto simp: deinterleave.simps [of nc fmt buf s c chans] split: sum.splits)
    from append_frame_advances [OF fr] "1.prems"(4) have c1: "c1 = (f0 + 1) * ?N" by simp
    from append_frame_result [OF fr "1.prems"(2)]
    have len1: "length chans1 = ?N"
      and one: "\<And>j. j < ?N \<Longrightarrow> format (chans1 ! j) = format (chans ! j) \<and> rate (chans1 ! j) = rate (chans ! j)
        \<and> flushed (chans1 ! j) = flushed (chans ! j)
        \<and> samples (chans1 ! j) = samples (chans ! j) @ [cell buf (c + j)]"
      by auto
    from "1.IH" [OF True fr refl rec len1 "1.prems"(3) c1]
    have len': "length chans' = ?N"
      and rest: "\<And>j. j < ?N \<Longrightarrow> format (chans' ! j) = format (chans1 ! j) \<and> rate (chans' ! j) = rate (chans1 ! j)
        \<and> flushed (chans' ! j) = flushed (chans1 ! j)
        \<and> samples (chans' ! j) =
            samples (chans1 ! j) @ map (\<lambda>f. cell buf (f * ?N + j)) [f0 + 1..<unat s]"
      by auto
    from True "1.prems"(3,4) have "f0 * ?N < unat s * ?N" by simp
    then have f0: "f0 < unat s" by simp
    then have upt: "[f0..<unat s] = f0 # [f0 + 1..<unat s]"
      by (simp add: upt_conv_Cons)
    show ?thesis
    proof (intro conjI allI impI)
      show "length chans' = ?N" by (rule len')
    next
      fix j assume j: "j < ?N"
      from one [OF j] rest [OF j] show "format (chans' ! j) = format (chans ! j)" by simp
      from one [OF j] rest [OF j] show "rate (chans' ! j) = rate (chans ! j)" by simp
      from one [OF j] rest [OF j] show "flushed (chans' ! j) = flushed (chans ! j)" by simp
      from one [OF j] rest [OF j] "1.prems"(4)
      show "samples (chans' ! j) =
          samples (chans ! j) @ map (\<lambda>f. cell buf (f * ?N + j)) [f0..<unat s]"
        by (simp add: upt)
    qed
  next
    case False
    with "1.prems"(1) have same: "chans' = chans"
      by (simp add: deinterleave.simps [of nc fmt buf s c chans])
    show ?thesis
    proof (intro conjI allI impI)
      show "length chans' = ?N" using same "1.prems"(2) by simp
    next
      fix j assume j: "j < ?N"
      from False "1.prems"(3,4) have "\<not> f0 * ?N < unat s * ?N" by simp
      with j have "unat s \<le> f0" by auto
      then have "[f0..<unat s] = []" by simp
      with same show "format (chans' ! j) = format (chans ! j)"
        "rate (chans' ! j) = rate (chans ! j)" "flushed (chans' ! j) = flushed (chans ! j)"
        "samples (chans' ! j) =
          samples (chans ! j) @ map (\<lambda>f. cell buf (f * ?N + j)) [f0..<unat s]"
        by simp_all
    qed
  qed
qed

subsection \<open>The decode loop\<close>

lemma decode_loop_induct [consumes 1, case_names last step]:
  assumes run: "decode_loop e h st = Some (Inr st')"
    and last: "\<And>s. decode_step e h s = Inr st' \<Longrightarrow>
                 \<not> (updateResult st' = Success \<and> samplesRead st' \<noteq> 0) \<Longrightarrow> P s"
    and step: "\<And>s s1. decode_step e h s = Inr s1 \<Longrightarrow> updateResult s1 = Success \<Longrightarrow>
                 samplesRead s1 \<noteq> 0 \<Longrightarrow> P s1 \<Longrightarrow> P s"
  shows "P st"
proof -
  have "e' = e \<longrightarrow> h' = h \<longrightarrow> y = Inr st' \<longrightarrow> P s"
    if "decode_loop e' h' s = Some y" for e' h' s y
  using that
  proof (rule decode_loop.raw_induct [rotated], goal_cases)
    case (1 loop e' h' s y)
    note IH = "1"(1) and body = "1"(2)
    show "e' = e \<longrightarrow> h' = h \<longrightarrow> y = Inr st' \<longrightarrow> P s"
    proof (intro impI)
      assume eq: "e' = e" "h' = h" "y = Inr st'"
      show "P s"
      proof (cases "decode_step e h s")
        case (Inl err)
        with body eq show ?thesis by simp
      next
        case (Inr s1)
        show ?thesis
        proof (cases "updateResult s1 = Success \<and> samplesRead s1 \<noteq> 0")
          case True
          with body eq Inr have "loop e h s1 = Some (Inr st')" by simp
          from IH [OF this] have "P s1" by simp
          with Inr True show ?thesis by (auto intro: step)
        next
          case False
          with body eq Inr have "s1 = st'" by simp
          with Inr False show ?thesis by (auto intro: last)
        qed
      qed
    qed
  qed
  from this [OF run] show ?thesis by simp
qed

lemma decode_step_fields:
  assumes "decode_step e h st = Inr st'"
  shows "unpackLog st' = unpackLog st @ [SAMPLES_TO_READ]"
    and "samplesRead st' = frames_read h (length (unpackLog st))"
    and "totalSamplesRead st' = totalSamplesRead st + frames_read h (length (unpackLog st))"
    and "updateResult st' = Update e (length (unpackLog st))"
    and "count (wavpackBuffer st') = count (wavpackBuffer st)"
    and "length (cells_written h (length (unpackLog st))) \<le> count (wavpackBuffer st)"
  using assms
  by (auto simp: decode_step_def frames_read_def cells_written_def Let_def write_cells_def
           split: prod.splits if_splits sum.splits)

lemma decode_loop_log:
  assumes "decode_loop e h st = Some (Inr st')"
  shows "\<exists>m. unpackLog st' = unpackLog st @ replicate (Suc m) SAMPLES_TO_READ"
  using assms
proof (induction rule: decode_loop_induct)
  case (last s)
  from decode_step_fields(1) [OF last(1)]
  have "unpackLog st' = unpackLog s @ replicate (Suc 0) SAMPLES_TO_READ" by simp
  then show ?case by blast
next
  case (step s s1)
  from step(4) obtain m where m: "unpackLog st' = unpackLog s1 @ replicate (Suc m) SAMPLES_TO_READ"
    by blast
  with decode_step_fields(1) [OF step(1)]
  have "unpackLog st' = unpackLog s @ replicate (Suc (Suc m)) SAMPLES_TO_READ" by simp
  then show ?case by blast
qed

lemma decode_loop_log_length:
  assumes "decode_loop e h st = Some (Inr st')"
  shows "length (unpackLog st) < length (unpackLog st')"
  using decode_loop_log [OF assms] by auto

lemma decode_loop_stop:
  assumes "decode_loop e h st = Some (Inr st')"
  shows "samplesRead st' = frames_read h (length (unpackLog st') - 1)
     \<and> updateResult st' = Update e (length (unpackLog st') - 1)
     \<and> (\<forall>k. length (unpackLog st) \<le> k \<and> k < length (unpackLog st') - 1
            \<longrightarrow> Update e k = Success \<and> frames_read h k \<noteq> 0)
     \<and> \<not> (Update e (length (unpackLog st') - 1) = Success
            \<and> frames_read h (length (unpackLog st') - 1) \<noteq> 0)"
  using assms
proof (induction rule: decode_loop_induct)
  case (last s)
  from last(1) show ?case
    using last(2) by (auto simp: decode_step_fields)
next
  case (step s s1)
  from step(1) have log: "length (unpackLog s1) = Suc (length (unpackLog s))"
    by (simp add: decode_step_fields(1))
  from step(1,2,3) have here: "Update e (length (unpackLog s)) = Success"
      "frames_read h (length (unpackLog s)) \<noteq> 0"
    by (simp_all add: decode_step_fields)
  show ?case
  proof (intro conjI allI impI)
    fix k assume k: "length (unpackLog s) \<le> k \<and> k < length (unpackLog st') - 1"
    show "Update e k = Success" "frames_read h k \<noteq> 0"
      using k here step(4) log by (cases "k = length (unpackLog s)"; simp)+
  qed (use step(4) in simp_all)
qed

lemma decode_loop_total:
  assumes "decode_loop e h st = Some (Inr st')"
  shows "length (unpackLog st) < length (unpackLog st') \<and>
         totalSamplesRead st' = totalSamplesRead st
           + sum_list (map (frames_read h) [length (unpackLog st)..<length (unpackLog st')])"
  using assms
proof (induction rule: decode_loop_induct)
  case (last s)
  then show ?case by (simp add: decode_step_fields)
next
  case (step s s1)
  from step(1) have log: "length (unpackLog s1) = Suc (length (unpackLog s))"
    by (simp add: decode_step_fields(1))
  from step(4) log have lt: "length (unpackLog s) < length (unpackLog st')" by simp
  with log have "[length (unpackLog s)..<length (unpackLog st')]
      = length (unpackLog s) # [length (unpackLog s1)..<length (unpackLog st')]"
    by (simp add: upt_conv_Cons)
  with step(4) step(1) lt show ?case
    by (simp add: decode_step_fields add.assoc)
qed

lemma frame_cell_in_chunk:
  fixes f n j s :: nat
  assumes "f < s" "j < n"
  shows "f * n + j < s * n"
proof -
  from assms have "f * n + j < f * n + n" by simp
  also have "\<dots> = Suc f * n" by simp
  also from assms(1) have "\<dots> \<le> s * n" by (intro mult_le_mono1) simp
  finally show ?thesis .
qed

lemma decode_step_channels:
  assumes step: "decode_step e h st = Inr st'"
    and len: "length (mChannels st) = unat (mNumChannels h)"
    and small: "count (wavpackBuffer st) < 2 ^ 32"
    and contract: "length (cells_written h (length (unpackLog st)))
        = unat (frames_read h (length (unpackLog st))) * unat (mNumChannels h)"
  shows "length (mChannels st') = unat (mNumChannels h) \<and>
    (\<forall>j<unat (mNumChannels h).
        format (mChannels st' ! j) = format (mChannels st ! j)
      \<and> rate (mChannels st' ! j) = rate (mChannels st ! j)
      \<and> flushed (mChannels st' ! j) = flushed (mChannels st ! j)
      \<and> samples (mChannels st' ! j) = samples (mChannels st ! j)
           @ chunk_channel (unat (mNumChannels h)) (cells_written h (length (unpackLog st)))
               (unat (frames_read h (length (unpackLog st)))) j)"
proof -
  let ?k = "length (unpackLog st)"
  let ?r = "frames_read h ?k" and ?dat = "cells_written h ?k"
  let ?N = "unat (mNumChannels h)"
  let ?buf = "write_cells ?dat (wavpackBuffer st)"
  have U: "WavpackUnpackSamples (mWavPackContext h) ?k SAMPLES_TO_READ = (?r, ?dat)"
    by (simp add: frames_read_def cells_written_def)
  from step U have fits: "length ?dat \<le> count (wavpackBuffer st)"
    by (auto simp: decode_step_def Let_def split: if_splits)
  from step U fits have de: "deinterleave (mNumChannels h) (mFormat h) ?buf ?r 0 (mChannels st)
      = Inr (mChannels st')"
    by (auto simp: decode_step_def Let_def split: if_splits sum.splits)
  from fits small contract have "unat ?r * ?N < 2 ^ 32" by simp
  with unat_mult_lem [of ?r "mNumChannels h"]
  have nowrap: "unat (?r * mNumChannels h) = unat ?r * ?N"
    by simp
  from deinterleave_result [OF de len nowrap, of 0]
  have len': "length (mChannels st') = ?N"
    and each: "\<And>j. j < ?N \<Longrightarrow>
        format (mChannels st' ! j) = format (mChannels st ! j)
      \<and> rate (mChannels st' ! j) = rate (mChannels st ! j)
      \<and> flushed (mChannels st' ! j) = flushed (mChannels st ! j)
      \<and> samples (mChannels st' ! j) = samples (mChannels st ! j)
           @ map (\<lambda>f. cell ?buf (f * ?N + j)) [0..<unat ?r]"
    by auto
  have cells: "map (\<lambda>f. cell ?buf (f * ?N + j)) [0..<unat ?r] = chunk_channel ?N ?dat (unat ?r) j"
    if "j < ?N" for j
    unfolding chunk_channel_def
  proof (rule map_cong [OF refl])
    fix f assume "f \<in> set [0..<unat ?r]"
    then have "f < unat ?r" by simp
    from frame_cell_in_chunk [OF this that] contract
    have "f * ?N + j < length ?dat" by simp
    then show "cell ?buf (f * ?N + j) = ?dat ! (f * ?N + j)"
      by (simp add: write_cells_def)
  qed
  from len' each cells show ?thesis by simp
qed

lemma decode_loop_terminates:
  assumes "frames_read h K = 0" "length (unpackLog st) \<le> K"
  shows "\<exists>y. decode_loop e h st = Some y"
  using assms(2)
proof (induction "K - length (unpackLog st)" arbitrary: st rule: less_induct)
  case less
  show ?case
  proof (cases "decode_step e h st")
    case (Inl err)
    then show ?thesis by (simp add: decode_loop.simps [of e h st])
  next
    case (Inr s1)
    show ?thesis
    proof (cases "updateResult s1 = Success \<and> samplesRead s1 \<noteq> 0")
      case True
      with Inr have "frames_read h (length (unpackLog st)) \<noteq> 0"
        by (simp add: decode_step_fields(2))
      with assms(1) have "length (unpackLog st) \<noteq> K" by auto
      with less.prems have lt: "length (unpackLog st) < K" by simp
      from Inr have log: "length (unpackLog s1) = Suc (length (unpackLog st))"
        by (simp add: decode_step_fields(1))
      from lt log have "K - length (unpackLog s1) < K - length (unpackLog st)"
        "length (unpackLog s1) \<le> K" by simp_all
      from less.hyps [OF this] obtain y where "decode_loop e h s1 = Some y" by blast
      with Inr True show ?thesis by (simp add: decode_loop.simps [of e h st])
    next
      case False
      with Inr show ?thesis by (auto simp: decode_loop.simps [of e h st])
    qed
  qed
qed

lemma decode_loop_channels:
  assumes run: "decode_loop e h st = Some (Inr st')"
    and contract: "\<forall>k. length (cells_written h k) = unat (frames_read h k) * unat (mNumChannels h)"
  shows "length (mChannels st) = unat (mNumChannels h) \<longrightarrow> count (wavpackBuffer st) < 2 ^ 32 \<longrightarrow>
    length (unpackLog st) < length (unpackLog st') \<and>
    length (mChannels st') = unat (mNumChannels h) \<and>
    (\<forall>j<unat (mNumChannels h).
        format (mChannels st' ! j) = format (mChannels st ! j)
      \<and> rate (mChannels st' ! j) = rate (mChannels st ! j)
      \<and> flushed (mChannels st' ! j) = flushed (mChannels st ! j)
      \<and> samples (mChannels st' ! j) = samples (mChannels st ! j)
           @ concat (map (\<lambda>k. chunk_channel (unat (mNumChannels h)) (cells_written h k)
                                (unat (frames_read h k)) j)
                       [length (unpackLog st)..<length (unpackLog st')]))"
  using run
proof (induction rule: decode_loop_induct)
  case (last s)
  show ?case
  proof (intro impI)
    assume len: "length (mChannels s) = unat (mNumChannels h)"
      and small: "count (wavpackBuffer s) < 2 ^ 32"
    from last(1) have log: "length (unpackLog st') = Suc (length (unpackLog s))"
      by (simp add: decode_step_fields(1))
    then have upt: "[length (unpackLog s)..<length (unpackLog st')] = [length (unpackLog s)]"
      by simp
    from decode_step_channels [OF last(1) len small] contract log
    show "length (unpackLog s) < length (unpackLog st') \<and>
      length (mChannels st') = unat (mNumChannels h) \<and>
      (\<forall>j<unat (mNumChannels h).
        format (mChannels st' ! j) = format (mChannels s ! j)
      \<and> rate (mChannels st' ! j) = rate (mChannels s ! j)
      \<and> flushed (mChannels st' ! j) = flushed (mChannels s ! j)
      \<and> samples (mChannels st' ! j) = samples (mChannels s ! j)
           @ concat (map (\<lambda>k. chunk_channel (unat (mNumChannels h)) (cells_written h k)
                                (unat (frames_read h k)) j)
                       [length (unpackLog s)..<length (unpackLog st')]))"
      unfolding upt by simp
  qed
next
  case (step s s1)
  show ?case
  proof (intro impI)
    assume len: "length (mChannels s) = unat (mNumChannels h)"
      and small: "count (wavpackBuffer s) < 2 ^ 32"
    from step(1) have log: "length (unpackLog s1) = Suc (length (unpackLog s))"
      by (simp add: decode_step_fields(1))
    from step(1) small have small1: "count (wavpackBuffer s1) < 2 ^ 32"
      by (simp add: decode_step_fields(5))
    from decode_step_channels [OF step(1) len small] contract
    have len1: "length (mChannels s1) = unat (mNumChannels h)"
      and first: "\<And>j. j < unat (mNumChannels h) \<Longrightarrow>
        format (mChannels s1 ! j) = format (mChannels s ! j)
      \<and> rate (mChannels s1 ! j) = rate (mChannels s ! j)
      \<and> flushed (mChannels s1 ! j) = flushed (mChannels s ! j)
      \<and> samples (mChannels s1 ! j) = samples (mChannels s ! j)
           @ chunk_channel (unat (mNumChannels h)) (cells_written h (length (unpackLog s)))
               (unat (frames_read h (length (unpackLog s)))) j"
      by simp_all
    from step(4) len1 small1
    have lt1: "length (unpackLog s1) < length (unpackLog st')"
      and len': "length (mChannels st') = unat (mNumChannels h)"
      and rest: "\<And>j. j < unat (mNumChannels h) \<Longrightarrow>
        format (mChannels st' ! j) = format (mChannels s1 ! j)
      \<and> rate (mChannels st' ! j) = rate (mChannels s1 ! j)
      \<and> flushed (mChannels st' ! j) = flushed (mChannels s1 ! j)
      \<and> samples (mChannels st' ! j) = samples (mChannels s1 ! j)
           @ concat (map (\<lambda>k. chunk_channel (unat (mNumChannels h)) (cells_written h k)
                                (unat (frames_read h k)) j)
                       [length (unpackLog s1)..<length (unpackLog st')])"
      by simp_all
    from lt1 log have lt: "length (unpackLog s) < length (unpackLog st')" by simp
    with log have upt: "[length (unpackLog s)..<length (unpackLog st')]
        = length (unpackLog s) # [length (unpackLog s1)..<length (unpackLog st')]"
      by (simp add: upt_conv_Cons)
    show "length (unpackLog s) < length (unpackLog st') \<and>
      length (mChannels st') = unat (mNumChannels h) \<and>
      (\<forall>j<unat (mNumChannels h).
        format (mChannels st' ! j) = format (mChannels s ! j)
      \<and> rate (mChannels st' ! j) = rate (mChannels s ! j)
      \<and> flushed (mChannels st' ! j) = flushed (mChannels s ! j)
      \<and> samples (mChannels st' ! j) = samples (mChannels s ! j)
           @ concat (map (\<lambda>k. chunk_channel (unat (mNumChannels h)) (cells_written h k)
                                (unat (frames_read h k)) j)
                       [length (unpackLog s)..<length (unpackLog st')]))"
      unfolding upt using lt len' first rest by simp
  qed
qed

lemma append_frame_succeeds:
  "length chans = n \<Longrightarrow> chn \<le> n \<Longrightarrow> c + (n - chn) \<le> count buf \<Longrightarrow>
   \<exists>c' chans'. append_frame n fmt buf chn c chans = Inr (c', chans')"
proof (induction n fmt buf chn c chans rule: append_frame.induct)
  case (1 n fmt buf chn c chans)
  show ?case
  proof (cases "chn < n")
    case True
    with "1.prems" have ok: "chn < length chans \<and> c < count buf" by simp
    from True "1.prems" have
      "\<exists>c' chans'. append_frame n fmt buf (chn + 1) (c + 1)
          (chans[chn := Append (chans ! chn) (cell buf c) fmt]) = Inr (c', chans')"
      by (intro "1.IH" [OF True ok]) simp_all
    with True ok show ?thesis
      by (simp add: append_frame.simps [of n fmt buf chn c chans])
  next
    case False
    then show ?thesis
      by (simp add: append_frame.simps [of n fmt buf chn c chans])
  qed
qed

lemma deinterleave_succeeds:
  "length chans = unat nc \<Longrightarrow> unat (s * nc) = unat s * unat nc \<Longrightarrow>
   unat s * unat nc \<le> count buf \<Longrightarrow> c = f0 * unat nc \<Longrightarrow>
   \<exists>chans'. deinterleave nc fmt buf s c chans = Inr chans'"
proof (induction nc fmt buf s c chans arbitrary: f0 rule: deinterleave.induct)
  case (1 nc fmt buf s c chans)
  let ?N = "unat nc"
  show ?case
  proof (cases "c < unat (s * nc)")
    case True
    with "1.prems"(2,4) have "f0 * ?N < unat s * ?N" by simp
    then have f0: "f0 < unat s" by simp
    then have "Suc f0 * ?N \<le> unat s * ?N" by (intro mult_le_mono1) simp
    with "1.prems"(3,4) have room: "c + (?N - 0) \<le> count buf" by simp
    from append_frame_succeeds [OF "1.prems"(1) _ room, of fmt]
    obtain c1 chans1 where fr: "append_frame ?N fmt buf 0 c chans = Inr (c1, chans1)"
      by auto
    from append_frame_advances [OF fr] "1.prems"(4) have c1: "c1 = (f0 + 1) * ?N" by simp
    from append_frame_result [OF fr "1.prems"(1)] have len1: "length chans1 = ?N" by simp
    from "1.IH" [OF True fr refl len1 "1.prems"(2,3) c1]
    obtain chans' where "deinterleave nc fmt buf s c1 chans1 = Inr chans'" by blast
    with True fr show ?thesis
      by (simp add: deinterleave.simps [of nc fmt buf s c chans])
  next
    case False
    then show ?thesis
      by (simp add: deinterleave.simps [of nc fmt buf s c chans])
  qed
qed

lemma decode_step_succeeds:
  assumes len: "length (mChannels st) = unat (mNumChannels h)"
    and cnt: "count (wavpackBuffer st) = unat (mNumChannels h) * SAMPLES_TO_READ"
    and small: "unat (mNumChannels h) * SAMPLES_TO_READ < 2 ^ 32"
    and contract: "library_contract h (length (unpackLog st))"
  shows "\<exists>st'. decode_step e h st = Inr st'
     \<and> length (mChannels st') = unat (mNumChannels h)
     \<and> count (wavpackBuffer st') = unat (mNumChannels h) * SAMPLES_TO_READ"
proof -
  let ?k = "length (unpackLog st)"
  let ?r = "frames_read h ?k" and ?dat = "cells_written h ?k"
  let ?N = "unat (mNumChannels h)"
  let ?buf = "write_cells ?dat (wavpackBuffer st)"
  have U: "WavpackUnpackSamples (mWavPackContext h) ?k SAMPLES_TO_READ = (?r, ?dat)"
    by (simp add: frames_read_def cells_written_def)
  from contract have le: "unat ?r \<le> SAMPLES_TO_READ" and cells: "length ?dat = unat ?r * ?N"
    by (simp_all add: library_contract_def)
  from le have "unat ?r * ?N \<le> SAMPLES_TO_READ * ?N" by (rule mult_le_mono1)
  then have fitsN: "unat ?r * ?N \<le> ?N * SAMPLES_TO_READ" by (simp only: mult.commute)
  with cnt have fits: "unat ?r * ?N \<le> count (wavpackBuffer st)" by simp
  from fitsN small have "unat ?r * ?N < 2 ^ 32" by (rule le_less_trans)
  with unat_mult_lem [of ?r "mNumChannels h"]
  have nowrap: "unat (?r * mNumChannels h) = unat ?r * ?N" by simp
  from fits have fits': "unat ?r * ?N \<le> count ?buf" by (simp add: write_cells_def)
  from deinterleave_succeeds [OF len nowrap fits', of 0 0 "mFormat h"]
  obtain chans' where de: "deinterleave (mNumChannels h) (mFormat h) ?buf ?r 0 (mChannels st) = Inr chans'"
    by auto
  from deinterleave_result [OF de len nowrap, of 0] have len': "length chans' = ?N" by simp
  from fits cells have "\<not> count (wavpackBuffer st) < length ?dat" by simp
  with U de len' cnt show ?thesis
    by (simp add: decode_step_def Let_def write_cells_def)
qed

lemma decode_loop_succeeds:
  assumes K: "frames_read h K = 0"
    and small: "unat (mNumChannels h) * SAMPLES_TO_READ < 2 ^ 32"
    and contract: "\<forall>k. library_contract h k"
  shows "length (unpackLog st) \<le> K \<Longrightarrow> length (mChannels st) = unat (mNumChannels h) \<Longrightarrow>
     count (wavpackBuffer st) = unat (mNumChannels h) * SAMPLES_TO_READ \<Longrightarrow>
     \<exists>st'. decode_loop e h st = Some (Inr st')"
proof (induction "K - length (unpackLog st)" arbitrary: st rule: less_induct)
  case less
  from contract have "library_contract h (length (unpackLog st))" by simp
  from decode_step_succeeds [OF less.prems(2,3) small this, of e]
  obtain s1 where s1: "decode_step e h st = Inr s1"
    "length (mChannels s1) = unat (mNumChannels h)"
    "count (wavpackBuffer s1) = unat (mNumChannels h) * SAMPLES_TO_READ"
    by blast
  show ?case
  proof (cases "updateResult s1 = Success \<and> samplesRead s1 \<noteq> 0")
    case True
    with s1(1) have "frames_read h (length (unpackLog st)) \<noteq> 0"
      by (simp add: decode_step_fields(2))
    with K have "length (unpackLog st) \<noteq> K" by auto
    with less.prems(1) have lt: "length (unpackLog st) < K" by simp
    from s1(1) have log: "length (unpackLog s1) = Suc (length (unpackLog st))"
      by (simp add: decode_step_fields(1))
    from lt log have "K - length (unpackLog s1) < K - length (unpackLog st)"
      "length (unpackLog s1) \<le> K" by simp_all
    from less.hyps [OF this s1(2,3)] obtain st' where "decode_loop e h s1 = Some (Inr st')"
      by blast
    with s1(1) True show ?thesis by (simp add: decode_loop.simps [of e h st])
  next
    case False
    with s1(1) show ?thesis by (auto simp: decode_loop.simps [of e h st])
  qed
qed

subsection \<open>\<^verbatim>\<open>Import\<close> around the loop, and running the concrete file\<close>

lemma Import_returns:
  assumes "Import e junk h outTracks0 tags0 = Some (Inr r)"
  shows "\<exists>st. decode_loop e h (decode_init junk h) = Some (Inr st)
           \<and> r = Import_finish e h st outTracks0 tags0"
  using assms
  by (auto simp: Import_def split: if_splits option.splits sum.splits)

lemma Import_after_loop:
  assumes "decode_loop e h (decode_init junk h) = Some (Inr st)" "0 \<le> sint (mNumChannels h)"
  shows "Import e junk h outTracks0 tags0 = Some (Inr (Import_finish e h st outTracks0 tags0))"
  using assms by (simp add: Import_def)

lemma replicate_two: "replicate 2 x = [x, x]"
  by (simp add: numeral_2_eq_2)

lemmas run_defs =
  replicate_two decode_loop.simps decode_step_def decode_init_def stereo_handle_def stereo_ctx_def host_env_def
  WavPackImportFileHandle_ctor_def SAMPLES_TO_READ_def write_cells_def deinterleave.simps
  append_frame.simps NewWaveTrack_def Append_def

lemmas finish_defs =
  Import_def Import_finish_def Flush_def copy_tags.simps copy_tag_item_def tag_value_def
  cstr_def Clear_def SetTag_def HasTag_def

lemma unat_sum_list_word32:
  "unat (sum_list (map f xs) :: 32 word) = sum_list (map (\<lambda>x. unat (f x)) xs) mod 2 ^ 32"
proof (induction xs)
  case Nil
  show ?case by simp
next
  case (Cons x xs)
  have "unat (f x + sum_list (map f xs)) = (unat (f x) + unat (sum_list (map f xs))) mod 2 ^ 32"
    by (simp add: unat_word_ariths(1))
  also have "\<dots> = (unat (f x) + sum_list (map (\<lambda>x. unat (f x)) xs) mod 2 ^ 32) mod 2 ^ 32"
    by (simp only: Cons.IH)
  also have "\<dots> = (unat (f x) + sum_list (map (\<lambda>x. unat (f x)) xs)) mod 2 ^ 32"
    by (rule mod_add_right_eq)
  finally show ?case by simp
qed

lemma decode_init_log [simp]: "unpackLog (decode_init junk h) = []"
  by (simp add: decode_init_def)

lemma Import_finish_tracks:
  assumes "result (Import_finish e h st outTracks0 tags0) \<noteq> Failed"
    and "result (Import_finish e h st outTracks0 tags0) \<noteq> Cancelled"
  shows "outTracks (Import_finish e h st outTracks0 tags0)
           = (if map Flush (mChannels st) = [] then [] else [map Flush (mChannels st)])"
  using assms by (auto simp: Import_finish_def Let_def split: if_splits)

subsection \<open>The loop leaving on the progress dialog\<close>

lemma decode_loop_exits:
  assumes "\<not> (Update e K = Success \<and> frames_read h K \<noteq> 0)" "length (unpackLog st) \<le> K"
  shows "\<exists>y. decode_loop e h st = Some y"
  using assms(2)
proof (induction "K - length (unpackLog st)" arbitrary: st rule: less_induct)
  case less
  show ?case
  proof (cases "decode_step e h st")
    case (Inl err)
    then show ?thesis by (simp add: decode_loop.simps [of e h st])
  next
    case (Inr s1)
    show ?thesis
    proof (cases "updateResult s1 = Success \<and> samplesRead s1 \<noteq> 0")
      case True
      with Inr have "Update e (length (unpackLog st)) = Success
          \<and> frames_read h (length (unpackLog st)) \<noteq> 0"
        by (simp add: decode_step_fields(2,4))
      with assms(1) have "length (unpackLog st) \<noteq> K" by auto
      with less.prems have lt: "length (unpackLog st) < K" by simp
      from Inr have log: "length (unpackLog s1) = Suc (length (unpackLog st))"
        by (simp add: decode_step_fields(1))
      from lt log have "K - length (unpackLog s1) < K - length (unpackLog st)"
        "length (unpackLog s1) \<le> K" by simp_all
      from less.hyps [OF this] obtain y where "decode_loop e h s1 = Some y" by blast
      with Inr True show ?thesis by (simp add: decode_loop.simps [of e h st])
    next
      case False
      with Inr show ?thesis by (auto simp: decode_loop.simps [of e h st])
    qed
  qed
qed

lemma decode_loop_exits_defined:
  assumes K: "\<not> (Update e K = Success \<and> frames_read h K \<noteq> 0)"
    and small: "unat (mNumChannels h) * SAMPLES_TO_READ < 2 ^ 32"
    and contract: "\<forall>k. library_contract h k"
  shows "length (unpackLog st) \<le> K \<Longrightarrow> length (mChannels st) = unat (mNumChannels h) \<Longrightarrow>
     count (wavpackBuffer st) = unat (mNumChannels h) * SAMPLES_TO_READ \<Longrightarrow>
     \<exists>st'. decode_loop e h st = Some (Inr st')"
proof (induction "K - length (unpackLog st)" arbitrary: st rule: less_induct)
  case less
  from contract have "library_contract h (length (unpackLog st))" by simp
  from decode_step_succeeds [OF less.prems(2,3) small this, of e]
  obtain s1 where s1: "decode_step e h st = Inr s1"
    "length (mChannels s1) = unat (mNumChannels h)"
    "count (wavpackBuffer s1) = unat (mNumChannels h) * SAMPLES_TO_READ"
    by blast
  show ?case
  proof (cases "updateResult s1 = Success \<and> samplesRead s1 \<noteq> 0")
    case True
    with s1(1) have "Update e (length (unpackLog st)) = Success
        \<and> frames_read h (length (unpackLog st)) \<noteq> 0"
      by (simp add: decode_step_fields(2,4))
    with K have "length (unpackLog st) \<noteq> K" by auto
    with less.prems(1) have lt: "length (unpackLog st) < K" by simp
    from s1(1) have log: "length (unpackLog s1) = Suc (length (unpackLog st))"
      by (simp add: decode_step_fields(1))
    from lt log have "K - length (unpackLog s1) < K - length (unpackLog st)"
      "length (unpackLog s1) \<le> K" by simp_all
    from less.hyps [OF this s1(2,3)] obtain st' where "decode_loop e h s1 = Some (Inr st')"
      by blast
    with s1(1) True show ?thesis by (simp add: decode_loop.simps [of e h st])
  next
    case False
    with s1(1) show ?thesis by (auto simp: decode_loop.simps [of e h st])
  qed
qed

lemma decode_loop_exit_iteration:
  assumes run: "decode_loop e h (decode_init junk h) = Some (Inr st)"
    and stop: "\<not> (Update e K = Success \<and> frames_read h K \<noteq> 0)"
    and before: "\<forall>k<K. Update e k = Success \<and> frames_read h k \<noteq> 0"
  shows "length (unpackLog st) = Suc K \<and> updateResult st = Update e K
     \<and> samplesRead st = frames_read h K"
proof -
  let ?m = "length (unpackLog st)"
  from decode_loop_log [OF run] have m: "0 < ?m" by auto
  from decode_loop_stop [OF run]
  have res: "samplesRead st = frames_read h (?m - 1)" "updateResult st = Update e (?m - 1)"
    and cont: "\<forall>k<?m - 1. Update e k = Success \<and> frames_read h k \<noteq> 0"
    and last: "\<not> (Update e (?m - 1) = Success \<and> frames_read h (?m - 1) \<noteq> 0)"
    by auto
  have "\<not> ?m - 1 < K" using before last by blast
  moreover have "\<not> K < ?m - 1" using cont stop by blast
  ultimately have K: "?m - 1 = K" by simp
  with m have "?m = Suc K" by arith
  with res K show ?thesis by simp
qed

lemma decode_loop_sequences:
  assumes run: "decode_loop e h (decode_init junk h) = Some (Inr st)"
    and contract: "\<forall>k. library_contract h k"
  shows "length (mChannels st) = unat (mNumChannels h)
     \<and> (\<forall>chn<unat (mNumChannels h).
           samples (mChannels st ! chn) = channel_sequence h chn (length (unpackLog st)))"
proof -
  have len0: "length (mChannels (decode_init junk h)) = unat (mNumChannels h)"
    by (simp add: decode_init_def)
  have small: "count (wavpackBuffer (decode_init junk h)) < 2 ^ 32"
    using unsigned_less [of "mNumChannels h * of_nat SAMPLES_TO_READ", where ?'a = nat]
    by (simp add: decode_init_def)
  from contract have cells:
    "\<forall>k. length (cells_written h k) = unat (frames_read h k) * unat (mNumChannels h)"
    by (simp add: library_contract_def)
  from decode_loop_channels [OF run cells, rule_format, OF len0 small]
  have len: "length (mChannels st) = unat (mNumChannels h)"
    and each: "\<And>j. j < unat (mNumChannels h) \<Longrightarrow>
        samples (mChannels st ! j) = samples (mChannels (decode_init junk h) ! j)
           @ concat (map (\<lambda>k. chunk_channel (unat (mNumChannels h)) (cells_written h k)
                                (unat (frames_read h k)) j)
                       [length (unpackLog (decode_init junk h))..<length (unpackLog st)])"
    by simp_all
  have "samples (mChannels st ! chn) = channel_sequence h chn (length (unpackLog st))"
    if chn: "chn < unat (mNumChannels h)" for chn
  proof -
    from chn have init: "mChannels (decode_init junk h) ! chn = NewWaveTrack (mFormat h) (mSampleRate h)"
      by (simp add: decode_init_def)
    from each [OF chn] show ?thesis
      unfolding init by (simp add: NewWaveTrack_def channel_sequence_def)
  qed
  with len show ?thesis by blast
qed

subsection \<open>The tag loop against the list of the file's items\<close>







subsection \<open>The plugin\<close>

text \<open>
  C7: the plugin is constructed with exactly one file extension, \<open>wv\<close>, and a file handle
  reports exactly one stream: \<open>GetStreamCount\<close> returns 1 for every handle.
\<close>

theorem one_extension_one_stream:
  "extensions WavPackImportPlugin_ctor = [''wv'']
   \<and> length (extensions WavPackImportPlugin_ctor) = 1
   \<and> GetStreamCount h = 1"
  by (simp add: WavPackImportPlugin_ctor_def exts_def GetStreamCount_def)

text \<open>
  C6: when the library's open call (with the flags \<open>OPEN_WVC | OPEN_FILE_UTF8 | OPEN_TAGS\<close>)
  returns the null context, \<open>Open\<close> returns no handle; when it returns a context, \<open>Open\<close>
  returns a handle, namely the one constructed from the file name and that context.
\<close>

theorem Open_follows_library:
  "(WavpackOpenFileInput e filename (OPEN_WVC e OR OPEN_FILE_UTF8 e OR OPEN_TAGS e) = None
      \<longrightarrow> Open e filename = None)
   \<and> (\<forall>ctx. WavpackOpenFileInput e filename (OPEN_WVC e OR OPEN_FILE_UTF8 e OR OPEN_TAGS e) = Some ctx
      \<longrightarrow> Open e filename \<noteq> None
          \<and> Open e filename = Some (WavPackImportFileHandle_ctor filename ctx)
          \<and> mFilename (the (Open e filename)) = filename
          \<and> mWavPackContext (the (Open e filename)) = ctx)"
  by (simp add: Open_def WavPackImportFileHandle_ctor_def)

theorem Open_follows_library_witness:
  "WavpackOpenFileInput host_env ''b.wv''
      (OPEN_WVC host_env OR OPEN_FILE_UTF8 host_env OR OPEN_TAGS host_env) = None
   \<and> Open host_env ''b.wv'' = None
   \<and> WavpackOpenFileInput host_env ''a.wv''
      (OPEN_WVC host_env OR OPEN_FILE_UTF8 host_env OR OPEN_TAGS host_env) = Some stereo_ctx
   \<and> Open host_env ''a.wv'' = Some stereo_handle"
proof -
  have none: "WavpackOpenFileInput host_env ''b.wv''
      (OPEN_WVC host_env OR OPEN_FILE_UTF8 host_env OR OPEN_TAGS host_env) = None"
    by (simp add: host_env_def)
  have some: "WavpackOpenFileInput host_env ''a.wv''
      (OPEN_WVC host_env OR OPEN_FILE_UTF8 host_env OR OPEN_TAGS host_env) = Some stereo_ctx"
    by (simp add: host_env_def)
  from none Open_follows_library [of host_env "''b.wv''"]
  have "Open host_env ''b.wv'' = None" by blast
  moreover from some Open_follows_library [of host_env "''a.wv''"]
  have "Open host_env ''a.wv'' = Some stereo_handle"
    unfolding stereo_handle_def by blast
  ultimately show ?thesis using none some by blast
qed

subsection \<open>The constructor\<close>

text \<open>
  C3: the constructor stores the library's bit depth and maps it to the sample format:
  16 bits or fewer give \<open>int16Sample\<close>, 17 to 24 bits give \<open>int24Sample\<close>, more than 24
  bits give \<open>floatSample\<close>.
\<close>

theorem ctor_format_by_bit_depth:
  "mBitsPerSample (WavPackImportFileHandle_ctor filename ctx) = WavpackGetBitsPerSample ctx
   \<and> (sint (WavpackGetBitsPerSample ctx) \<le> 16
        \<longrightarrow> mFormat (WavPackImportFileHandle_ctor filename ctx) = int16Sample)
   \<and> (17 \<le> sint (WavpackGetBitsPerSample ctx) \<and> sint (WavpackGetBitsPerSample ctx) \<le> 24
        \<longrightarrow> mFormat (WavPackImportFileHandle_ctor filename ctx) = int24Sample)
   \<and> (24 < sint (WavpackGetBitsPerSample ctx)
        \<longrightarrow> mFormat (WavPackImportFileHandle_ctor filename ctx) = floatSample)"
  by (simp add: WavPackImportFileHandle_ctor_def)

theorem ctor_format_by_bit_depth_witness:
  "sint (WavpackGetBitsPerSample stereo_ctx) \<le> 16
   \<and> mFormat (WavPackImportFileHandle_ctor ''a.wv'' stereo_ctx) = int16Sample
   \<and> 17 \<le> sint (WavpackGetBitsPerSample (stereo_ctx\<lparr>WavpackGetBitsPerSample := 24\<rparr>))
   \<and> sint (WavpackGetBitsPerSample (stereo_ctx\<lparr>WavpackGetBitsPerSample := 24\<rparr>)) \<le> 24
   \<and> mFormat (WavPackImportFileHandle_ctor ''a.wv'' (stereo_ctx\<lparr>WavpackGetBitsPerSample := 24\<rparr>))
       = int24Sample
   \<and> 24 < sint (WavpackGetBitsPerSample (stereo_ctx\<lparr>WavpackGetBitsPerSample := 32\<rparr>))
   \<and> mFormat (WavPackImportFileHandle_ctor ''a.wv'' (stereo_ctx\<lparr>WavpackGetBitsPerSample := 32\<rparr>))
       = floatSample"
proof -
  have b16: "sint (WavpackGetBitsPerSample stereo_ctx) \<le> 16"
    by (simp add: stereo_ctx_def)
  have b24: "17 \<le> sint (WavpackGetBitsPerSample (stereo_ctx\<lparr>WavpackGetBitsPerSample := 24\<rparr>))
      \<and> sint (WavpackGetBitsPerSample (stereo_ctx\<lparr>WavpackGetBitsPerSample := 24\<rparr>)) \<le> 24"
    by simp
  have b32: "24 < sint (WavpackGetBitsPerSample (stereo_ctx\<lparr>WavpackGetBitsPerSample := 32\<rparr>))"
    by simp
  from b16 ctor_format_by_bit_depth [of "''a.wv''" stereo_ctx]
  have f16: "mFormat (WavPackImportFileHandle_ctor ''a.wv'' stereo_ctx) = int16Sample"
    by blast
  from b24 ctor_format_by_bit_depth [of "''a.wv''" "stereo_ctx\<lparr>WavpackGetBitsPerSample := 24\<rparr>"]
  have f24: "mFormat (WavPackImportFileHandle_ctor ''a.wv'' (stereo_ctx\<lparr>WavpackGetBitsPerSample := 24\<rparr>))
      = int24Sample"
    by blast
  from b32 ctor_format_by_bit_depth [of "''a.wv''" "stereo_ctx\<lparr>WavpackGetBitsPerSample := 32\<rparr>"]
  have f32: "mFormat (WavPackImportFileHandle_ctor ''a.wv'' (stereo_ctx\<lparr>WavpackGetBitsPerSample := 32\<rparr>))
      = floatSample"
    by blast
  from b16 f16 b24 f24 b32 f32 show ?thesis by blast
qed

subsection \<open>The outcomes of \<^verbatim>\<open>Import\<close>\<close>

text \<open>
  C2: when the decode loop ends with \<open>Cancelled\<close>, or the completeness check downgrades
  the result to \<open>Failed\<close> (the loop did not end with \<open>Stopped\<close> and the 32-bit total is
  below the declared frame count), \<open>Import\<close> returns at once with that result: \<open>Failed\<close>
  if the check downgraded, \<open>Cancelled\<close> otherwise. \<open>outTracks\<close>, cleared at entry, is
  empty, whatever the caller passed in, and the tag store is the caller's.
\<close>

theorem Import_cancel_or_fail:
  assumes "decode_loop e h (decode_init junk h) = Some (Inr st)"
    and "0 \<le> sint (mNumChannels h)"
    and "updateResult st = Cancelled
         \<or> (updateResult st \<noteq> Stopped \<and> uint (totalSamplesRead st) < sint (mNumSamples h))"
  shows "\<exists>r. Import e junk h outTracks0 tags0 = Some (Inr r)
     \<and> result r = (if updateResult st \<noteq> Stopped \<and> uint (totalSamplesRead st) < sint (mNumSamples h)
                   then Failed else Cancelled)
     \<and> outTracks r = []
     \<and> tags r = tags0"
  using assms(3) unfolding Import_after_loop [OF assms(1,2)]
  by (auto simp: Import_finish_def Let_def)

theorem Import_cancel_or_fail_witness:
  "(\<exists>st. decode_loop (host_env\<lparr>Update := \<lambda>k. Cancelled\<rparr>) stereo_handle
            (decode_init (\<lambda>i. 0) stereo_handle) = Some (Inr st)
        \<and> updateResult st = Cancelled
        \<and> uint (totalSamplesRead st) < sint (mNumSamples stereo_handle))
   \<and> 0 \<le> sint (mNumChannels stereo_handle)
   \<and> Import (host_env\<lparr>Update := \<lambda>k. Cancelled\<rparr>) (\<lambda>i. 0) stereo_handle
        [[NewWaveTrack int16Sample 8000]] [''GENRE'' \<mapsto> ''Rock'']
      = Some (Inr \<lparr>result = Failed, outTracks = [], tags = [''GENRE'' \<mapsto> ''Rock'']\<rparr>)
   \<and> (\<exists>st. decode_loop (host_env\<lparr>Update := \<lambda>k. Cancelled\<rparr>) (stereo_handle\<lparr>mNumSamples := 2\<rparr>)
            (decode_init (\<lambda>i. 0) (stereo_handle\<lparr>mNumSamples := 2\<rparr>)) = Some (Inr st)
        \<and> updateResult st = Cancelled
        \<and> \<not> uint (totalSamplesRead st) < sint (mNumSamples (stereo_handle\<lparr>mNumSamples := 2\<rparr>)))
   \<and> Import (host_env\<lparr>Update := \<lambda>k. Cancelled\<rparr>) (\<lambda>i. 0) (stereo_handle\<lparr>mNumSamples := 2\<rparr>)
        [[NewWaveTrack int16Sample 8000]] [''GENRE'' \<mapsto> ''Rock'']
      = Some (Inr \<lparr>result = Cancelled, outTracks = [], tags = [''GENRE'' \<mapsto> ''Rock'']\<rparr>)"
proof -
  let ?e = "host_env\<lparr>Update := \<lambda>k. Cancelled\<rparr>"
  let ?h2 = "stereo_handle\<lparr>mNumSamples := 2\<rparr>"
  let ?out = "[[NewWaveTrack int16Sample 8000]]" and ?tags = "[''GENRE'' \<mapsto> ''Rock'']"
  have run: "\<exists>st. decode_loop ?e stereo_handle (decode_init (\<lambda>i. 0) stereo_handle) = Some (Inr st)
        \<and> updateResult st = Cancelled
        \<and> uint (totalSamplesRead st) < sint (mNumSamples stereo_handle)"
    by (simp add: run_defs)
  have run2: "\<exists>st. decode_loop ?e ?h2 (decode_init (\<lambda>i. 0) ?h2) = Some (Inr st)
        \<and> updateResult st = Cancelled
        \<and> \<not> uint (totalSamplesRead st) < sint (mNumSamples ?h2)"
    by (simp add: run_defs)
  have nonneg: "0 \<le> sint (mNumChannels stereo_handle)" "0 \<le> sint (mNumChannels ?h2)"
    by (simp_all add: stereo_handle_def stereo_ctx_def WavPackImportFileHandle_ctor_def)
  from run obtain st where st: "decode_loop ?e stereo_handle (decode_init (\<lambda>i. 0) stereo_handle) = Some (Inr st)"
    "updateResult st = Cancelled" "uint (totalSamplesRead st) < sint (mNumSamples stereo_handle)"
    by blast
  from Import_cancel_or_fail [OF st(1) nonneg(1), of ?out ?tags] st(2,3)
  obtain r where r: "Import ?e (\<lambda>i. 0) stereo_handle ?out ?tags = Some (Inr r)"
    "result r = Failed" "outTracks r = []" "tags r = ?tags"
    by auto
  from r(2,3,4) have "r = \<lparr>result = Failed, outTracks = [], tags = ?tags\<rparr>" by simp
  with r(1) have failed: "Import ?e (\<lambda>i. 0) stereo_handle ?out ?tags
      = Some (Inr \<lparr>result = Failed, outTracks = [], tags = ?tags\<rparr>)" by simp
  from run2 obtain st2 where st2: "decode_loop ?e ?h2 (decode_init (\<lambda>i. 0) ?h2) = Some (Inr st2)"
    "updateResult st2 = Cancelled" "\<not> uint (totalSamplesRead st2) < sint (mNumSamples ?h2)"
    by blast
  from Import_cancel_or_fail [OF st2(1) nonneg(2), of ?out ?tags] st2(2,3)
  obtain r2 where r2: "Import ?e (\<lambda>i. 0) ?h2 ?out ?tags = Some (Inr r2)"
    "result r2 = Cancelled" "outTracks r2 = []" "tags r2 = ?tags"
    by auto
  from r2(2,3,4) have "r2 = \<lparr>result = Cancelled, outTracks = [], tags = ?tags\<rparr>" by simp
  with r2(1) have cancelled: "Import ?e (\<lambda>i. 0) ?h2 ?out ?tags
      = Some (Inr \<lparr>result = Cancelled, outTracks = [], tags = ?tags\<rparr>)" by simp
  from run run2 nonneg(1) failed cancelled show ?thesis by blast
qed

text \<open>
  C9: let the progress dialog answer \<open>Stopped\<close> during the decode loop, at iteration
  \<open>K\<close>, every earlier iteration having gone on (\<open>Success\<close> and a non-zero frame count).
  Then the loop exits, in that iteration: \<open>Import\<close> terminates, and whenever the loop
  returns a state it has run \<open>K + 1\<close> iterations and ended with \<open>Stopped\<close>. Whenever
  \<open>Import\<close> returns a result, the result is \<open>Stopped\<close> whatever the frame count (the
  completeness check does not downgrade it), the channels as the loop left them are
  flushed and, unless there are none, pushed as one group into the cleared \<open>outTracks\<close>,
  and the tags are copied as on a complete import. And \<open>Import\<close> does return such a
  result when the channel count is not negative, the buffer size fits 32 bits and the
  library keeps its contract; each track then holds its channel's frames of the \<open>K + 1\<close>
  chunks decoded so far.
\<close>

theorem Import_stopped_keeps_partial:
  assumes stopped: "Update e K = Stopped"
    and before: "\<forall>k<K. Update e k = Success \<and> frames_read h k \<noteq> 0"
  shows "(\<exists>y. decode_loop e h (decode_init junk h) = Some y)
     \<and> (\<exists>y. Import e junk h outTracks0 tags0 = Some y)
     \<and> (\<forall>st. decode_loop e h (decode_init junk h) = Some (Inr st)
           \<longrightarrow> length (unpackLog st) = Suc K \<and> updateResult st = Stopped)
     \<and> (\<forall>r. Import e junk h outTracks0 tags0 = Some (Inr r) \<longrightarrow>
           result r = Stopped
         \<and> (\<exists>st. decode_loop e h (decode_init junk h) = Some (Inr st)
               \<and> length (unpackLog st) = Suc K
               \<and> outTracks r = (if mChannels st = [] then [] else [map Flush (mChannels st)])
               \<and> map samples (concat (outTracks r)) = map samples (mChannels st))
         \<and> (\<forall>group \<in> set (outTracks r). \<forall>t \<in> set group. flushed t)
         \<and> tags r =
             (if WavpackGetMode (mWavPackContext h) AND MODE_VALID_TAG e \<noteq> 0
                 \<and> 0 < sint (WavpackGetNumTagItems (mWavPackContext h))
              then copy_tags e (mWavPackContext h)
                     (WavpackGetMode (mWavPackContext h) AND MODE_APETAG e \<noteq> 0)
                     (sint (WavpackGetNumTagItems (mWavPackContext h))) 0 (Clear tags0)
              else tags0))
     \<and> (0 \<le> sint (mNumChannels h) \<and> unat (mNumChannels h) * SAMPLES_TO_READ < 2 ^ 32
          \<and> (\<forall>k. library_contract h k) \<longrightarrow>
           (\<exists>r chans. Import e junk h outTracks0 tags0 = Some (Inr r)
               \<and> result r = Stopped
               \<and> outTracks r = (if chans = [] then [] else [chans])
               \<and> length chans = unat (mNumChannels h)
               \<and> (\<forall>chn<length chans. flushed (chans ! chn)
                     \<and> samples (chans ! chn) = channel_sequence h chn (Suc K))))"
proof -
  from stopped have stop: "\<not> (Update e K = Success \<and> frames_read h K \<noteq> 0)" by simp
  have len0: "length (unpackLog (decode_init junk h)) \<le> K" by simp
  from decode_loop_exits [OF stop len0]
  obtain y where y: "decode_loop e h (decode_init junk h) = Some y" by blast
  then have exits: "\<exists>y. decode_loop e h (decode_init junk h) = Some y" by blast
  from y have returns: "\<exists>y. Import e junk h outTracks0 tags0 = Some y"
    by (cases y) (simp_all add: Import_def)
  have at_K: "length (unpackLog st) = Suc K \<and> updateResult st = Stopped"
    if "decode_loop e h (decode_init junk h) = Some (Inr st)" for st
    using decode_loop_exit_iteration [OF that stop before] stopped by simp
  have kept: "result r = Stopped
         \<and> (\<exists>st. decode_loop e h (decode_init junk h) = Some (Inr st)
               \<and> length (unpackLog st) = Suc K
               \<and> outTracks r = (if mChannels st = [] then [] else [map Flush (mChannels st)])
               \<and> map samples (concat (outTracks r)) = map samples (mChannels st))
         \<and> (\<forall>group \<in> set (outTracks r). \<forall>t \<in> set group. flushed t)
         \<and> tags r =
             (if WavpackGetMode (mWavPackContext h) AND MODE_VALID_TAG e \<noteq> 0
                 \<and> 0 < sint (WavpackGetNumTagItems (mWavPackContext h))
              then copy_tags e (mWavPackContext h)
                     (WavpackGetMode (mWavPackContext h) AND MODE_APETAG e \<noteq> 0)
                     (sint (WavpackGetNumTagItems (mWavPackContext h))) 0 (Clear tags0)
              else tags0)"
    if imp: "Import e junk h outTracks0 tags0 = Some (Inr r)" for r
  proof -
    from Import_returns [OF imp] obtain st where
      run: "decode_loop e h (decode_init junk h) = Some (Inr st)"
      and r: "r = Import_finish e h st outTracks0 tags0" by blast
    from at_K [OF run] have k: "length (unpackLog st) = Suc K" and st: "updateResult st = Stopped"
      by simp_all
    from st have res: "result r = Stopped"
      unfolding r by (simp add: Import_finish_def Let_def)
    from st have out: "outTracks r = (if mChannels st = [] then [] else [map Flush (mChannels st)])"
      unfolding r by (simp add: Import_finish_def Let_def)
    then have sam: "map samples (concat (outTracks r)) = map samples (mChannels st)"
      by (simp add: Flush_def comp_def)
    from out have fl: "\<forall>group \<in> set (outTracks r). \<forall>t \<in> set group. flushed t"
      by (auto simp: Flush_def)
    from st have tg: "tags r =
             (if WavpackGetMode (mWavPackContext h) AND MODE_VALID_TAG e \<noteq> 0
                 \<and> 0 < sint (WavpackGetNumTagItems (mWavPackContext h))
              then copy_tags e (mWavPackContext h)
                     (WavpackGetMode (mWavPackContext h) AND MODE_APETAG e \<noteq> 0)
                     (sint (WavpackGetNumTagItems (mWavPackContext h))) 0 (Clear tags0)
              else tags0)"
      unfolding r by (simp add: Import_finish_def Let_def)
    from run k out sam have "\<exists>st. decode_loop e h (decode_init junk h) = Some (Inr st)
               \<and> length (unpackLog st) = Suc K
               \<and> outTracks r = (if mChannels st = [] then [] else [map Flush (mChannels st)])
               \<and> map samples (concat (outTracks r)) = map samples (mChannels st)"
      by blast
    with res fl tg show ?thesis by blast
  qed
  have defined: "\<exists>r chans. Import e junk h outTracks0 tags0 = Some (Inr r)
               \<and> result r = Stopped
               \<and> outTracks r = (if chans = [] then [] else [chans])
               \<and> length chans = unat (mNumChannels h)
               \<and> (\<forall>chn<length chans. flushed (chans ! chn)
                     \<and> samples (chans ! chn) = channel_sequence h chn (Suc K))"
    if nonneg: "0 \<le> sint (mNumChannels h)"
      and small: "unat (mNumChannels h) * SAMPLES_TO_READ < 2 ^ 32"
      and contract: "\<forall>k. library_contract h k"
  proof -
    have "unat (of_nat SAMPLES_TO_READ :: 32 word) = SAMPLES_TO_READ"
      by (simp add: SAMPLES_TO_READ_def)
    with small unat_mult_lem [of "mNumChannels h" "of_nat SAMPLES_TO_READ :: 32 word"]
    have "unat (mNumChannels h * of_nat SAMPLES_TO_READ) = unat (mNumChannels h) * SAMPLES_TO_READ"
      by simp
    then have cnt: "count (wavpackBuffer (decode_init junk h)) = unat (mNumChannels h) * SAMPLES_TO_READ"
      by (simp add: decode_init_def)
    have len: "length (mChannels (decode_init junk h)) = unat (mNumChannels h)"
      by (simp add: decode_init_def)
    from decode_loop_exits_defined [OF stop small contract len0 len cnt]
    obtain st where run: "decode_loop e h (decode_init junk h) = Some (Inr st)" by blast
    let ?r = "Import_finish e h st outTracks0 tags0"
    let ?chans = "map Flush (mChannels st)"
    from Import_after_loop [OF run nonneg]
    have imp: "Import e junk h outTracks0 tags0 = Some (Inr ?r)" .
    from at_K [OF run] have k: "length (unpackLog st) = Suc K" and st: "updateResult st = Stopped"
      by simp_all
    from st have res: "result ?r = Stopped"
      by (simp add: Import_finish_def Let_def)
    from st have out: "outTracks ?r = (if ?chans = [] then [] else [?chans])"
      by (simp add: Import_finish_def Let_def)
    from decode_loop_sequences [OF run contract] k
    have n: "length ?chans = unat (mNumChannels h)"
      and seq: "\<And>chn. chn < unat (mNumChannels h) \<Longrightarrow>
          samples (mChannels st ! chn) = channel_sequence h chn (Suc K)"
      by simp_all
    have each: "\<forall>chn<length ?chans. flushed (?chans ! chn)
                     \<and> samples (?chans ! chn) = channel_sequence h chn (Suc K)"
    proof (intro allI impI)
      fix chn assume "chn < length ?chans"
      with n have chn: "chn < unat (mNumChannels h)" "chn < length (mChannels st)" by simp_all
      from chn(2) have "?chans ! chn = Flush (mChannels st ! chn)" by simp
      with seq [OF chn(1)]
      show "flushed (?chans ! chn) \<and> samples (?chans ! chn) = channel_sequence h chn (Suc K)"
        by (simp add: Flush_def)
    qed
    show ?thesis
    proof (intro exI conjI)
      show "Import e junk h outTracks0 tags0 = Some (Inr ?r)" by (rule imp)
      show "result ?r = Stopped" by (rule res)
      show "outTracks ?r = (if ?chans = [] then [] else [?chans])" by (rule out)
      show "length ?chans = unat (mNumChannels h)" by (rule n)
      show "\<forall>chn<length ?chans. flushed (?chans ! chn)
                     \<and> samples (?chans ! chn) = channel_sequence h chn (Suc K)" by (rule each)
    qed
  qed
  from exits returns at_K kept defined show ?thesis by blast
qed

theorem Import_stopped_keeps_partial_witness:
  "Update (host_env\<lparr>Update := \<lambda>k. if k = 0 then Success else Stopped\<rparr>) 1 = Stopped
   \<and> Update (host_env\<lparr>Update := \<lambda>k. if k = 0 then Success else Stopped\<rparr>) 0 = Success
   \<and> frames_read (stereo_handle\<lparr>mNumSamples := 10\<rparr>) 0 \<noteq> 0
   \<and> 0 \<le> sint (mNumChannels (stereo_handle\<lparr>mNumSamples := 10\<rparr>))
   \<and> unat (mNumChannels (stereo_handle\<lparr>mNumSamples := 10\<rparr>)) * SAMPLES_TO_READ < 2 ^ 32
   \<and> (\<forall>k. library_contract (stereo_handle\<lparr>mNumSamples := 10\<rparr>) k)
   \<and> (\<exists>st. decode_loop (host_env\<lparr>Update := \<lambda>k. if k = 0 then Success else Stopped\<rparr>)
            (stereo_handle\<lparr>mNumSamples := 10\<rparr>)
            (decode_init (\<lambda>i. 0) (stereo_handle\<lparr>mNumSamples := 10\<rparr>)) = Some (Inr st)
        \<and> length (unpackLog st) = 2
        \<and> updateResult st = Stopped
        \<and> uint (totalSamplesRead st) < sint (mNumSamples (stereo_handle\<lparr>mNumSamples := 10\<rparr>)))
   \<and> Import (host_env\<lparr>Update := \<lambda>k. if k = 0 then Success else Stopped\<rparr>) (\<lambda>i. 0)
        (stereo_handle\<lparr>mNumSamples := 10\<rparr>)
        [[NewWaveTrack int16Sample 8000]] [''GENRE'' \<mapsto> ''Rock'']
      = Some (Inr \<lparr>result = Stopped,
                   outTracks = [[\<lparr>format = int16Sample, rate = 44100, samples = [10, 11, 12], flushed = True\<rparr>,
                                 \<lparr>format = int16Sample, rate = 44100, samples = [20, 21, 22], flushed = True\<rparr>]],
                   tags = [''Title'' \<mapsto> ''Song'', ''YEAR'' \<mapsto> ''2021'',
                           ''Artist'' \<mapsto> [CHR ''A'', CHR 0x5C, CHR ''B'']]\<rparr>)
   \<and> channel_sequence (stereo_handle\<lparr>mNumSamples := 10\<rparr>) 0 (Suc 1) = [10, 11, 12]
   \<and> channel_sequence (stereo_handle\<lparr>mNumSamples := 10\<rparr>) 1 (Suc 1) = [20, 21, 22]"
proof -
  let ?e = "host_env\<lparr>Update := \<lambda>k. if k = 0 then Success else Stopped\<rparr>"
  let ?h = "stereo_handle\<lparr>mNumSamples := 10\<rparr>"
  let ?out = "[[NewWaveTrack int16Sample 8000]]" and ?tags = "[''GENRE'' \<mapsto> ''Rock'']"
  let ?t0 = "\<lparr>format = int16Sample, rate = 44100, samples = [10, 11, 12], flushed = False\<rparr>"
  let ?t1 = "\<lparr>format = int16Sample, rate = 44100, samples = [20, 21, 22], flushed = False\<rparr>"
  have stopped: "Update ?e 1 = Stopped" by simp
  have first: "Update ?e 0 = Success" "frames_read ?h 0 \<noteq> 0"
    by (simp_all add: frames_read_def stereo_handle_def stereo_ctx_def WavPackImportFileHandle_ctor_def)
  then have before: "\<forall>k<1. Update ?e k = Success \<and> frames_read ?h k \<noteq> 0" by simp
  have nonneg: "0 \<le> sint (mNumChannels ?h)"
    and small: "unat (mNumChannels ?h) * SAMPLES_TO_READ < 2 ^ 32"
    by (simp_all add: stereo_handle_def stereo_ctx_def WavPackImportFileHandle_ctor_def
          SAMPLES_TO_READ_def)
  have contract: "\<forall>k. library_contract ?h k"
    by (simp add: library_contract_def cells_written_def frames_read_def stereo_handle_def
          stereo_ctx_def WavPackImportFileHandle_ctor_def SAMPLES_TO_READ_def)
  have run: "\<exists>st. decode_loop ?e ?h (decode_init (\<lambda>i. 0) ?h) = Some (Inr st)
        \<and> uint (totalSamplesRead st) < sint (mNumSamples ?h)
        \<and> mChannels st = [?t0, ?t1]"
    by (simp add: run_defs)
  then obtain st0 where st0: "decode_loop ?e ?h (decode_init (\<lambda>i. 0) ?h) = Some (Inr st0)"
    "uint (totalSamplesRead st0) < sint (mNumSamples ?h)" "mChannels st0 = [?t0, ?t1]"
    by blast
  have copied: "copy_tags ?e (mWavPackContext ?h)
      (WavpackGetMode (mWavPackContext ?h) AND MODE_APETAG ?e \<noteq> 0)
      (sint (WavpackGetNumTagItems (mWavPackContext ?h))) 0 (Clear ?tags)
      = [''Title'' \<mapsto> ''Song'', ''YEAR'' \<mapsto> ''2021'', ''Artist'' \<mapsto> [CHR ''A'', CHR 0x5C, CHR ''B'']]"
    by (simp add: run_defs finish_defs)
  have valid: "WavpackGetMode (mWavPackContext ?h) AND MODE_VALID_TAG ?e \<noteq> 0
      \<and> 0 < sint (WavpackGetNumTagItems (mWavPackContext ?h))"
    by (simp add: run_defs)
  note inst = Import_stopped_keeps_partial [OF stopped before, of "\<lambda>i. 0" ?out ?tags]
  from inst st0(1) have at: "length (unpackLog st0) = Suc 1" "updateResult st0 = Stopped"
    by blast+
  from inst nonneg small contract obtain r chans where
    r: "Import ?e (\<lambda>i. 0) ?h ?out ?tags = Some (Inr r)" "result r = Stopped"
    and chans: "length chans = unat (mNumChannels ?h)"
      "\<forall>chn<length chans. flushed (chans ! chn)
          \<and> samples (chans ! chn) = channel_sequence ?h chn (Suc 1)"
      "outTracks r = (if chans = [] then [] else [chans])"
    by blast
  from inst r(1) obtain st where
    st: "decode_loop ?e ?h (decode_init (\<lambda>i. 0) ?h) = Some (Inr st)"
      "outTracks r = (if mChannels st = [] then [] else [map Flush (mChannels st)])"
    and tg0: "tags r =
         (if WavpackGetMode (mWavPackContext ?h) AND MODE_VALID_TAG ?e \<noteq> 0
             \<and> 0 < sint (WavpackGetNumTagItems (mWavPackContext ?h))
          then copy_tags ?e (mWavPackContext ?h)
                 (WavpackGetMode (mWavPackContext ?h) AND MODE_APETAG ?e \<noteq> 0)
                 (sint (WavpackGetNumTagItems (mWavPackContext ?h))) 0 (Clear ?tags)
          else ?tags)"
    by blast
  from st(1) st0(1) have "st = st0" by simp
  with st(2) st0(3) have out: "outTracks r = [[?t0\<lparr>flushed := True\<rparr>, ?t1\<lparr>flushed := True\<rparr>]]"
    by (simp add: Flush_def)
  from tg0 valid copied have tg: "tags r = [''Title'' \<mapsto> ''Song'', ''YEAR'' \<mapsto> ''2021'',
      ''Artist'' \<mapsto> [CHR ''A'', CHR 0x5C, CHR ''B'']]"
    by (simp only: if_True simp_thms)
  from r(2) out tg have "r = \<lparr>result = Stopped,
                   outTracks = [[\<lparr>format = int16Sample, rate = 44100, samples = [10, 11, 12], flushed = True\<rparr>,
                                 \<lparr>format = int16Sample, rate = 44100, samples = [20, 21, 22], flushed = True\<rparr>]],
                   tags = [''Title'' \<mapsto> ''Song'', ''YEAR'' \<mapsto> ''2021'',
                           ''Artist'' \<mapsto> [CHR ''A'', CHR 0x5C, CHR ''B'']]\<rparr>"
    by simp
  with r(1) have imp: "Import ?e (\<lambda>i. 0) ?h ?out ?tags
      = Some (Inr \<lparr>result = Stopped,
                   outTracks = [[\<lparr>format = int16Sample, rate = 44100, samples = [10, 11, 12], flushed = True\<rparr>,
                                 \<lparr>format = int16Sample, rate = 44100, samples = [20, 21, 22], flushed = True\<rparr>]],
                   tags = [''Title'' \<mapsto> ''Song'', ''YEAR'' \<mapsto> ''2021'',
                           ''Artist'' \<mapsto> [CHR ''A'', CHR 0x5C, CHR ''B'']]\<rparr>)"
    by simp
  from chans(1) have len2: "length chans = 2"
    by (simp add: stereo_handle_def stereo_ctx_def WavPackImportFileHandle_ctor_def)
  then have "chans \<noteq> []" by auto
  with chans(3) out have cs: "chans = [?t0\<lparr>flushed := True\<rparr>, ?t1\<lparr>flushed := True\<rparr>]" by simp
  from chans(2) len2 have "samples (chans ! 0) = channel_sequence ?h 0 (Suc 1)"
    "samples (chans ! 1) = channel_sequence ?h 1 (Suc 1)"
    by simp_all
  with cs have seqs: "channel_sequence ?h 0 (Suc 1) = [10, 11, 12]"
    "channel_sequence ?h 1 (Suc 1) = [20, 21, 22]"
    by simp_all
  from at have log2: "length (unpackLog st0) = 2" by simp
  from st0(1) log2 at(2) st0(2)
  have loop: "\<exists>st. decode_loop ?e ?h (decode_init (\<lambda>i. 0) ?h) = Some (Inr st)
        \<and> length (unpackLog st) = 2 \<and> updateResult st = Stopped
        \<and> uint (totalSamplesRead st) < sint (mNumSamples ?h)"
    by blast
  from stopped first nonneg small contract loop imp seqs show ?thesis by blast
qed

text \<open>
  C10: when the mode of the opened file has no valid tag block, or the file has no tag
  items, a call of \<open>Import\<close> that returns leaves the tag store as the caller passed it;
  it is not cleared.
\<close>

theorem Import_without_tags_keeps_store:
  assumes "Import e junk h outTracks0 tags0 = Some (Inr r)"
    and "WavpackGetMode (mWavPackContext h) AND MODE_VALID_TAG e = 0
         \<or> sint (WavpackGetNumTagItems (mWavPackContext h)) \<le> 0"
  shows "tags r = tags0"
proof -
  from Import_returns [OF assms(1)] obtain st where
    "r = Import_finish e h st outTracks0 tags0" by blast
  with assms(2) show ?thesis
    by (auto simp: Import_finish_def Let_def)
qed

theorem Import_without_tags_keeps_store_witness:
  "WavpackGetMode (mWavPackContext (WavPackImportFileHandle_ctor ''a.wv'' (stereo_ctx\<lparr>WavpackGetMode := 0x100\<rparr>)))
     AND MODE_VALID_TAG host_env = 0
   \<and> (\<exists>r. Import host_env (\<lambda>i. 0)
             (WavPackImportFileHandle_ctor ''a.wv'' (stereo_ctx\<lparr>WavpackGetMode := 0x100\<rparr>))
             [] [''GENRE'' \<mapsto> ''Rock''] = Some (Inr r)
          \<and> result r = Success \<and> tags r = [''GENRE'' \<mapsto> ''Rock''])
   \<and> sint (WavpackGetNumTagItems
        (mWavPackContext (WavPackImportFileHandle_ctor ''a.wv'' (stereo_ctx\<lparr>WavpackGetNumTagItems := 0\<rparr>)))) \<le> 0
   \<and> (\<exists>r. Import host_env (\<lambda>i. 0)
             (WavPackImportFileHandle_ctor ''a.wv'' (stereo_ctx\<lparr>WavpackGetNumTagItems := 0\<rparr>))
             [] [''GENRE'' \<mapsto> ''Rock''] = Some (Inr r)
          \<and> result r = Success \<and> tags r = [''GENRE'' \<mapsto> ''Rock''])"
proof -
  let ?h1 = "WavPackImportFileHandle_ctor ''a.wv'' (stereo_ctx\<lparr>WavpackGetMode := 0x100\<rparr>)"
  let ?h2 = "WavPackImportFileHandle_ctor ''a.wv'' (stereo_ctx\<lparr>WavpackGetNumTagItems := 0\<rparr>)"
  let ?tags = "[''GENRE'' \<mapsto> ''Rock'']"
  have novalid: "WavpackGetMode (mWavPackContext ?h1) AND MODE_VALID_TAG host_env = 0"
    by (simp add: run_defs)
  have noitems: "sint (WavpackGetNumTagItems (mWavPackContext ?h2)) \<le> 0"
    by (simp add: run_defs)
  have "\<exists>r. Import host_env (\<lambda>i. 0) ?h1 [] ?tags = Some (Inr r) \<and> result r = Success"
    by (simp add: run_defs finish_defs)
  then obtain r1 where r1: "Import host_env (\<lambda>i. 0) ?h1 [] ?tags = Some (Inr r1)" "result r1 = Success"
    by blast
  from Import_without_tags_keeps_store [OF r1(1)] novalid have t1: "tags r1 = ?tags" by blast
  have "\<exists>r. Import host_env (\<lambda>i. 0) ?h2 [] ?tags = Some (Inr r) \<and> result r = Success"
    by (simp add: run_defs finish_defs)
  then obtain r2 where r2: "Import host_env (\<lambda>i. 0) ?h2 [] ?tags = Some (Inr r2)" "result r2 = Success"
    by blast
  from Import_without_tags_keeps_store [OF r2(1)] noitems have t2: "tags r2 = ?tags" by blast
  from novalid noitems r1 t1 r2 t2 show ?thesis by blast
qed

subsection \<open>The loop as a whole\<close>

text \<open>
  C5: the decode loop works in chunks. Every call of the library asks for
  \<open>SAMPLES_TO_READ\<close> = 100000 frames, never more; the loop runs on exactly while the
  progress dialog answers \<open>Success\<close> and the library returns a non-zero frame count, so
  it ends at the first iteration where the library returns 0 or the dialog answers
  anything else. If the library returns 0 at some call, \<open>Import\<close> terminates. If
  moreover the channel count is not negative, the buffer size \<open>n * 100000\<close> fits 32
  bits and the library keeps its contract at every call, \<open>Import\<close> terminates with a
  result, inside the defined behaviour of C++.
\<close>

theorem decode_loop_chunked_terminates:
  "(\<forall>st. decode_loop e h (decode_init junk h) = Some (Inr st) \<longrightarrow>
        unpackLog st \<noteq> []
      \<and> (\<forall>req \<in> set (unpackLog st). req = SAMPLES_TO_READ \<and> req \<le> 100000)
      \<and> (\<forall>k<length (unpackLog st) - 1. Update e k = Success \<and> frames_read h k \<noteq> 0)
      \<and> (frames_read h (length (unpackLog st) - 1) = 0
           \<or> Update e (length (unpackLog st) - 1) \<noteq> Success))
   \<and> ((\<exists>K. frames_read h K = 0) \<longrightarrow> (\<exists>y. Import e junk h outTracks0 tags0 = Some y))
   \<and> ((\<exists>K. frames_read h K = 0) \<and> 0 \<le> sint (mNumChannels h)
        \<and> unat (mNumChannels h) * SAMPLES_TO_READ < 2 ^ 32 \<and> (\<forall>k. library_contract h k)
      \<longrightarrow> (\<exists>r. Import e junk h outTracks0 tags0 = Some (Inr r)))"
proof -
  have part1: "unpackLog st \<noteq> []
      \<and> (\<forall>req \<in> set (unpackLog st). req = SAMPLES_TO_READ \<and> req \<le> 100000)
      \<and> (\<forall>k<length (unpackLog st) - 1. Update e k = Success \<and> frames_read h k \<noteq> 0)
      \<and> (frames_read h (length (unpackLog st) - 1) = 0
           \<or> Update e (length (unpackLog st) - 1) \<noteq> Success)"
    if run: "decode_loop e h (decode_init junk h) = Some (Inr st)" for st
  proof -
    from decode_loop_log [OF run] obtain m where
      log: "unpackLog st = replicate (Suc m) SAMPLES_TO_READ" by auto
    then have nonempty: "unpackLog st \<noteq> []" by simp
    from log have reqs: "\<forall>req \<in> set (unpackLog st). req = SAMPLES_TO_READ \<and> req \<le> 100000"
      by (simp add: SAMPLES_TO_READ_def)
    from decode_loop_stop [OF run]
    have "\<forall>k<length (unpackLog st) - 1. Update e k = Success \<and> frames_read h k \<noteq> 0"
      and "frames_read h (length (unpackLog st) - 1) = 0
           \<or> Update e (length (unpackLog st) - 1) \<noteq> Success"
      by auto
    with nonempty reqs show ?thesis by blast
  qed
  have part2: "\<exists>y. Import e junk h outTracks0 tags0 = Some y" if "\<exists>K. frames_read h K = 0"
  proof -
    from that obtain K where K: "frames_read h K = 0" by blast
    from decode_loop_terminates [OF K, of "decode_init junk h" e]
    obtain y where "decode_loop e h (decode_init junk h) = Some y" by auto
    then show ?thesis
      by (cases y) (simp_all add: Import_def)
  qed
  have part3: "\<exists>r. Import e junk h outTracks0 tags0 = Some (Inr r)"
    if "\<exists>K. frames_read h K = 0" and nonneg: "0 \<le> sint (mNumChannels h)"
      and small: "unat (mNumChannels h) * SAMPLES_TO_READ < 2 ^ 32"
      and contract: "\<forall>k. library_contract h k"
  proof -
    from that(1) obtain K where K: "frames_read h K = 0" by blast
    have "unat (of_nat SAMPLES_TO_READ :: 32 word) = SAMPLES_TO_READ"
      by (simp add: SAMPLES_TO_READ_def)
    with small unat_mult_lem [of "mNumChannels h" "of_nat SAMPLES_TO_READ :: 32 word"]
    have "unat (mNumChannels h * of_nat SAMPLES_TO_READ) = unat (mNumChannels h) * SAMPLES_TO_READ"
      by simp
    then have cnt: "count (wavpackBuffer (decode_init junk h)) = unat (mNumChannels h) * SAMPLES_TO_READ"
      by (simp add: decode_init_def)
    have len: "length (mChannels (decode_init junk h)) = unat (mNumChannels h)"
      by (simp add: decode_init_def)
    from decode_loop_succeeds [OF K small contract _ len cnt, of e]
    obtain st where "decode_loop e h (decode_init junk h) = Some (Inr st)" by auto
    from Import_after_loop [OF this nonneg] show ?thesis by blast
  qed
  from part1 part2 part3 show ?thesis by blast
qed

theorem decode_loop_chunked_terminates_witness:
  "frames_read stereo_handle 2 = 0
   \<and> (\<exists>y. Import host_env (\<lambda>i. 0) stereo_handle [] Map.empty = Some y)
   \<and> (\<exists>st. decode_loop host_env stereo_handle (decode_init (\<lambda>i. 0) stereo_handle) = Some (Inr st)
          \<and> unpackLog st = [100000, 100000, 100000]
          \<and> frames_read stereo_handle 0 \<noteq> 0 \<and> frames_read stereo_handle 1 \<noteq> 0
          \<and> frames_read stereo_handle (length (unpackLog st) - 1) = 0)
   \<and> 0 \<le> sint (mNumChannels stereo_handle)
   \<and> unat (mNumChannels stereo_handle) * SAMPLES_TO_READ < 2 ^ 32
   \<and> (\<forall>k. library_contract stereo_handle k)
   \<and> (\<exists>r. Import host_env (\<lambda>i. 0) stereo_handle [] Map.empty = Some (Inr r))"
proof -
  have nonneg: "0 \<le> sint (mNumChannels stereo_handle)"
    and small: "unat (mNumChannels stereo_handle) * SAMPLES_TO_READ < 2 ^ 32"
    by (simp_all add: stereo_handle_def stereo_ctx_def WavPackImportFileHandle_ctor_def
          SAMPLES_TO_READ_def)
  have contract: "\<forall>k. library_contract stereo_handle k"
    by (simp add: library_contract_def cells_written_def frames_read_def stereo_handle_def
          stereo_ctx_def WavPackImportFileHandle_ctor_def SAMPLES_TO_READ_def)
  have zero: "frames_read stereo_handle 2 = 0"
    by (simp add: frames_read_def stereo_handle_def stereo_ctx_def WavPackImportFileHandle_ctor_def)
  then have ex: "\<exists>K. frames_read stereo_handle K = 0" by blast
  have run: "\<exists>st. decode_loop host_env stereo_handle (decode_init (\<lambda>i. 0) stereo_handle) = Some (Inr st)
      \<and> unpackLog st = [100000, 100000, 100000]"
    by (simp add: run_defs)
  then obtain st where st: "decode_loop host_env stereo_handle (decode_init (\<lambda>i. 0) stereo_handle) = Some (Inr st)"
    "unpackLog st = [100000, 100000, 100000]" by blast
  note inst = decode_loop_chunked_terminates [of host_env stereo_handle "\<lambda>i. 0" "[]" Map.empty]
  from inst ex have ends: "\<exists>y. Import host_env (\<lambda>i. 0) stereo_handle [] Map.empty = Some y"
    by blast
  from inst st(1) have
    before: "\<forall>k<length (unpackLog st) - 1. Update host_env k = Success \<and> frames_read stereo_handle k \<noteq> 0"
    and last: "frames_read stereo_handle (length (unpackLog st) - 1) = 0
           \<or> Update host_env (length (unpackLog st) - 1) \<noteq> Success"
    by blast+
  from before st(2) have nz: "frames_read stereo_handle 0 \<noteq> 0" "frames_read stereo_handle 1 \<noteq> 0"
    by simp_all
  from last have z: "frames_read stereo_handle (length (unpackLog st) - 1) = 0"
    by (simp add: host_env_def)
  from inst ex nonneg small contract
  have res: "\<exists>r. Import host_env (\<lambda>i. 0) stereo_handle [] Map.empty = Some (Inr r)"
    by blast
  from zero ends st nz z nonneg small contract res show ?thesis by blast
qed

text \<open>
  C8: the running total of frames is a 32-bit unsigned counter: after the loop it is the
  sum of the frame counts the library returned, modulo \<open>2 ^ 32\<close>. The declared frame
  count is a signed 64-bit integer. \<open>Import\<close> returns a result other than \<open>Failed\<close> only
  if that wrapped total, converted to 64 bits, is at least the declared count, or the
  result is \<open>Stopped\<close>. Hence for a file that declares \<open>2 ^ 32\<close> frames or more the check
  compares a count below \<open>2 ^ 32\<close> with the true total: \<open>Import\<close> returns \<open>Failed\<close> or
  \<open>Stopped\<close>, however many frames were read.
\<close>

theorem total_frames_wrap_at_32_bits:
  assumes "decode_loop e h (decode_init junk h) = Some (Inr st)"
    and "Import e junk h outTracks0 tags0 = Some (Inr r)"
  shows "unat (totalSamplesRead st)
           = sum_list (map (\<lambda>k. unat (frames_read h k)) [0..<length (unpackLog st)]) mod 2 ^ 32
     \<and> uint (totalSamplesRead st) < 2 ^ 32
     \<and> (result r \<noteq> Failed \<longrightarrow>
           result r = Stopped \<or> sint (mNumSamples h) \<le> uint (totalSamplesRead st))
     \<and> (2 ^ 32 \<le> sint (mNumSamples h) \<longrightarrow> result r = Failed \<or> result r = Stopped)"
proof -
  from decode_loop_total [OF assms(1)]
  have "totalSamplesRead st = sum_list (map (frames_read h) [0..<length (unpackLog st)])"
    by (simp add: decode_init_def)
  then have sum: "unat (totalSamplesRead st)
      = sum_list (map (\<lambda>k. unat (frames_read h k)) [0..<length (unpackLog st)]) mod 2 ^ 32"
    by (simp only: unat_sum_list_word32)
  have bound: "uint (totalSamplesRead st) < 2 ^ 32"
    using uint_bounded [of "totalSamplesRead st"] by simp
  from Import_returns [OF assms(2)] assms(1)
  have r: "r = Import_finish e h st outTracks0 tags0" by simp
  have check: "result r \<noteq> Failed \<longrightarrow>
      result r = Stopped \<or> sint (mNumSamples h) \<le> uint (totalSamplesRead st)"
    unfolding r by (auto simp: Import_finish_def Let_def)
  from check bound have big: "2 ^ 32 \<le> sint (mNumSamples h) \<longrightarrow> result r = Failed \<or> result r = Stopped"
    by auto
  from sum bound check big show ?thesis by blast
qed

theorem total_frames_wrap_at_32_bits_witness:
  "(\<exists>st r. decode_loop host_env stereo_handle (decode_init (\<lambda>i. 0) stereo_handle) = Some (Inr st)
        \<and> Import host_env (\<lambda>i. 0) stereo_handle [] Map.empty = Some (Inr r)
        \<and> result r = Success
        \<and> sint (mNumSamples stereo_handle) \<le> uint (totalSamplesRead st))
   \<and> 2 ^ 32 \<le> sint (mNumSamples (stereo_handle\<lparr>mNumSamples := 4294967299\<rparr>))
   \<and> (\<exists>st r. decode_loop host_env (stereo_handle\<lparr>mNumSamples := 4294967299\<rparr>)
               (decode_init (\<lambda>i. 0) (stereo_handle\<lparr>mNumSamples := 4294967299\<rparr>)) = Some (Inr st)
        \<and> Import host_env (\<lambda>i. 0) (stereo_handle\<lparr>mNumSamples := 4294967299\<rparr>) [] Map.empty
            = Some (Inr r)
        \<and> totalSamplesRead st = 3
        \<and> result r = Failed)"
proof -
  let ?hb = "stereo_handle\<lparr>mNumSamples := 4294967299\<rparr>"
  have "\<exists>st. decode_loop host_env stereo_handle (decode_init (\<lambda>i. 0) stereo_handle) = Some (Inr st)"
    by (simp add: run_defs)
  then obtain st where st: "decode_loop host_env stereo_handle (decode_init (\<lambda>i. 0) stereo_handle) = Some (Inr st)"
    by blast
  have "\<exists>r. Import host_env (\<lambda>i. 0) stereo_handle [] Map.empty = Some (Inr r) \<and> result r = Success"
    by (simp add: run_defs finish_defs)
  then obtain r where r: "Import host_env (\<lambda>i. 0) stereo_handle [] Map.empty = Some (Inr r)"
    "result r = Success" by blast
  from total_frames_wrap_at_32_bits [OF st r(1)] r(2)
  have enough: "sint (mNumSamples stereo_handle) \<le> uint (totalSamplesRead st)" by simp
  have big: "2 ^ 32 \<le> sint (mNumSamples ?hb)" by simp
  have "\<exists>st. decode_loop host_env ?hb (decode_init (\<lambda>i. 0) ?hb) = Some (Inr st)
      \<and> totalSamplesRead st = 3"
    by (simp add: run_defs)
  then obtain stb where stb: "decode_loop host_env ?hb (decode_init (\<lambda>i. 0) ?hb) = Some (Inr stb)"
    "totalSamplesRead stb = 3" by blast
  have "\<exists>r. Import host_env (\<lambda>i. 0) ?hb [] Map.empty = Some (Inr r) \<and> result r \<noteq> Stopped"
    by (simp add: run_defs finish_defs)
  then obtain rb where rb: "Import host_env (\<lambda>i. 0) ?hb [] Map.empty = Some (Inr rb)"
    "result rb \<noteq> Stopped" by blast
  from total_frames_wrap_at_32_bits [OF stb(1) rb(1)] big rb(2)
  have failed: "result rb = Failed" by blast
  from st r enough big stb rb(1) failed show ?thesis by blast
qed

subsection \<open>What the tracks receive\<close>

text \<open>
  C1: take a handle constructed for a file of \<open>n\<close> channels whose library writes, at
  each call, as many cells as the frames it reports times \<open>n\<close>. When \<open>Import\<close> returns
  neither \<open>Failed\<close> nor \<open>Cancelled\<close>, it has run the loop for some \<open>m\<close> chunks (up to the
  first chunk of 0 frames or the first update that is not \<open>Success\<close>) and \<open>outTracks\<close>
  holds one group of exactly \<open>n\<close> flushed tracks (no group when \<open>n\<close> is 0). Each track
  has the file's sample rate and the format mapped from its bit depth, and track \<open>chn\<close>
  holds, chunk after chunk, the interleaved elements \<open>f * n + chn\<close> of the chunk for
  \<open>f\<close> from 0 up to the chunk's frame count: its own sample sequence, in order.
\<close>

theorem Import_deinterleaves:
  assumes h: "h = WavPackImportFileHandle_ctor filename ctx"
    and contract:
      "\<forall>k. length (cells_written h k) = unat (frames_read h k) * unat (WavpackGetNumChannels ctx)"
    and run: "Import e junk h outTracks0 tags0 = Some (Inr r)"
    and ok: "result r \<noteq> Failed" "result r \<noteq> Cancelled"
  shows "\<exists>m chans. 0 < m
      \<and> (\<forall>k<m - 1. Update e k = Success \<and> frames_read h k \<noteq> 0)
      \<and> (frames_read h (m - 1) = 0 \<or> Update e (m - 1) \<noteq> Success)
      \<and> length chans = unat (WavpackGetNumChannels ctx)
      \<and> outTracks r = (if chans = [] then [] else [chans])
      \<and> (\<forall>chn<length chans.
            format (chans ! chn) =
              (if sint (WavpackGetBitsPerSample ctx) \<le> 16 then int16Sample
               else if sint (WavpackGetBitsPerSample ctx) \<le> 24 then int24Sample
               else floatSample)
          \<and> rate (chans ! chn) = WavpackGetSampleRate ctx
          \<and> flushed (chans ! chn)
          \<and> samples (chans ! chn) = channel_sequence h chn m
          \<and> samples (chans ! chn) =
              concat (map (\<lambda>k. map (\<lambda>f. cells_written h k ! (f * length chans + chn))
                                   [0..<unat (frames_read h k)]) [0..<m]))"
proof -
  let ?N = "unat (WavpackGetNumChannels ctx)"
  from h have N: "mNumChannels h = WavpackGetNumChannels ctx"
    and fmt: "mFormat h = (if sint (WavpackGetBitsPerSample ctx) \<le> 16 then int16Sample
               else if sint (WavpackGetBitsPerSample ctx) \<le> 24 then int24Sample
               else floatSample)"
    and rt: "mSampleRate h = WavpackGetSampleRate ctx"
    by (simp_all add: WavPackImportFileHandle_ctor_def)
  from Import_returns [OF run] obtain st where
    loop: "decode_loop e h (decode_init junk h) = Some (Inr st)"
    and r: "r = Import_finish e h st outTracks0 tags0"
    by blast
  let ?m = "length (unpackLog st)"
  let ?chans = "map Flush (mChannels st)"
  from decode_loop_log [OF loop] have m: "0 < ?m" by auto
  from decode_loop_stop [OF loop]
  have cont: "\<forall>k<?m - 1. Update e k = Success \<and> frames_read h k \<noteq> 0"
    and stop: "frames_read h (?m - 1) = 0 \<or> Update e (?m - 1) \<noteq> Success"
    by auto
  from ok have out: "outTracks r = (if ?chans = [] then [] else [?chans])"
    unfolding r by (rule Import_finish_tracks)
  have len0: "length (mChannels (decode_init junk h)) = unat (mNumChannels h)"
    by (simp add: decode_init_def)
  have small: "count (wavpackBuffer (decode_init junk h)) < 2 ^ 32"
    using unsigned_less [of "mNumChannels h * of_nat SAMPLES_TO_READ", where ?'a = nat]
    by (simp add: decode_init_def)
  from contract N have contract':
    "\<forall>k. length (cells_written h k) = unat (frames_read h k) * unat (mNumChannels h)"
    by simp
  from decode_loop_channels [OF loop contract', rule_format, OF len0 small]
  have len: "length (mChannels st) = unat (mNumChannels h)"
    and each: "\<And>j. j < unat (mNumChannels h) \<Longrightarrow>
        format (mChannels st ! j) = format (mChannels (decode_init junk h) ! j)
      \<and> rate (mChannels st ! j) = rate (mChannels (decode_init junk h) ! j)
      \<and> samples (mChannels st ! j) = samples (mChannels (decode_init junk h) ! j)
           @ concat (map (\<lambda>k. chunk_channel (unat (mNumChannels h)) (cells_written h k)
                                (unat (frames_read h k)) j)
                       [length (unpackLog (decode_init junk h))..<?m])"
    by simp_all
  have tracks: "format (?chans ! chn) = mFormat h \<and> rate (?chans ! chn) = mSampleRate h
      \<and> flushed (?chans ! chn) \<and> samples (?chans ! chn) = channel_sequence h chn ?m"
    if "chn < length ?chans" for chn
  proof -
    from that len have chn: "chn < unat (mNumChannels h)" by simp
    with len have nth: "?chans ! chn = Flush (mChannels st ! chn)" by simp
    from chn have init: "mChannels (decode_init junk h) ! chn = NewWaveTrack (mFormat h) (mSampleRate h)"
      by (simp add: decode_init_def)
    from each [OF chn] show ?thesis
      unfolding nth init
      by (simp add: Flush_def NewWaveTrack_def channel_sequence_def)
  qed
  have seq: "channel_sequence h chn ?m =
      concat (map (\<lambda>k. map (\<lambda>f. cells_written h k ! (f * length ?chans + chn))
                           [0..<unat (frames_read h k)]) [0..<?m])" for chn
    using len by (simp add: channel_sequence_def chunk_channel_def)
  from len N have lenN: "length ?chans = ?N" by simp
  have all: "\<forall>chn<length ?chans.
            format (?chans ! chn) =
              (if sint (WavpackGetBitsPerSample ctx) \<le> 16 then int16Sample
               else if sint (WavpackGetBitsPerSample ctx) \<le> 24 then int24Sample
               else floatSample)
          \<and> rate (?chans ! chn) = WavpackGetSampleRate ctx
          \<and> flushed (?chans ! chn)
          \<and> samples (?chans ! chn) = channel_sequence h chn ?m
          \<and> samples (?chans ! chn) =
              concat (map (\<lambda>k. map (\<lambda>f. cells_written h k ! (f * length ?chans + chn))
                                   [0..<unat (frames_read h k)]) [0..<?m])"
  proof (intro allI impI)
    fix chn assume chn: "chn < length ?chans"
    from tracks [OF chn] have t: "format (?chans ! chn) = mFormat h"
      "rate (?chans ! chn) = mSampleRate h" "flushed (?chans ! chn)"
      "samples (?chans ! chn) = channel_sequence h chn ?m"
      by blast+
    from t(4) seq [of chn] have s2: "samples (?chans ! chn) =
              concat (map (\<lambda>k. map (\<lambda>f. cells_written h k ! (f * length ?chans + chn))
                                   [0..<unat (frames_read h k)]) [0..<?m])"
      by (rule trans)
    from t(1) fmt have f: "format (?chans ! chn) =
              (if sint (WavpackGetBitsPerSample ctx) \<le> 16 then int16Sample
               else if sint (WavpackGetBitsPerSample ctx) \<le> 24 then int24Sample
               else floatSample)"
      by (rule trans)
    from t(2) rt have rr: "rate (?chans ! chn) = WavpackGetSampleRate ctx"
      by (rule trans)
    from f rr t(3) t(4) s2
    show "format (?chans ! chn) =
              (if sint (WavpackGetBitsPerSample ctx) \<le> 16 then int16Sample
               else if sint (WavpackGetBitsPerSample ctx) \<le> 24 then int24Sample
               else floatSample)
          \<and> rate (?chans ! chn) = WavpackGetSampleRate ctx
          \<and> flushed (?chans ! chn)
          \<and> samples (?chans ! chn) = channel_sequence h chn ?m
          \<and> samples (?chans ! chn) =
              concat (map (\<lambda>k. map (\<lambda>f. cells_written h k ! (f * length ?chans + chn))
                                   [0..<unat (frames_read h k)]) [0..<?m])"
      by (intro conjI)
  qed
  show ?thesis
  proof (intro exI conjI)
    show "0 < ?m" by (rule m)
    show "\<forall>k<?m - 1. Update e k = Success \<and> frames_read h k \<noteq> 0" by (rule cont)
    show "frames_read h (?m - 1) = 0 \<or> Update e (?m - 1) \<noteq> Success" by (rule stop)
    show "length ?chans = ?N" by (rule lenN)
    show "outTracks r = (if ?chans = [] then [] else [?chans])" by (rule out)
    show "\<forall>chn<length ?chans.
            format (?chans ! chn) =
              (if sint (WavpackGetBitsPerSample ctx) \<le> 16 then int16Sample
               else if sint (WavpackGetBitsPerSample ctx) \<le> 24 then int24Sample
               else floatSample)
          \<and> rate (?chans ! chn) = WavpackGetSampleRate ctx
          \<and> flushed (?chans ! chn)
          \<and> samples (?chans ! chn) = channel_sequence h chn ?m
          \<and> samples (?chans ! chn) =
              concat (map (\<lambda>k. map (\<lambda>f. cells_written h k ! (f * length ?chans + chn))
                                   [0..<unat (frames_read h k)]) [0..<?m])"
      by (rule all)
  qed
qed

theorem Import_deinterleaves_witness:
  "(\<forall>k. length (cells_written stereo_handle k)
          = unat (frames_read stereo_handle k) * unat (WavpackGetNumChannels stereo_ctx))
   \<and> (\<exists>r. Import host_env (\<lambda>i. 0) stereo_handle [] Map.empty = Some (Inr r)
          \<and> result r = Success
          \<and> outTracks r =
               [[\<lparr>format = int16Sample, rate = 44100, samples = [10, 11, 12], flushed = True\<rparr>,
                 \<lparr>format = int16Sample, rate = 44100, samples = [20, 21, 22], flushed = True\<rparr>]])
   \<and> (\<exists>m. channel_sequence stereo_handle 0 m = [10, 11, 12]
          \<and> channel_sequence stereo_handle 1 m = [20, 21, 22])"
proof -
  let ?t0 = "\<lparr>format = int16Sample, rate = 44100, samples = [10, 11, 12], flushed = True\<rparr>"
  let ?t1 = "\<lparr>format = int16Sample, rate = 44100, samples = [20, 21, 22], flushed = True\<rparr>"
  have contract: "\<forall>k. length (cells_written stereo_handle k)
          = unat (frames_read stereo_handle k) * unat (WavpackGetNumChannels stereo_ctx)"
    by (simp add: cells_written_def frames_read_def stereo_handle_def stereo_ctx_def
          WavPackImportFileHandle_ctor_def)
  have "\<exists>r. Import host_env (\<lambda>i. 0) stereo_handle [] Map.empty = Some (Inr r)
          \<and> result r = Success \<and> outTracks r = [[?t0, ?t1]]"
    by (simp add: run_defs finish_defs)
  then obtain r where r: "Import host_env (\<lambda>i. 0) stereo_handle [] Map.empty = Some (Inr r)"
    "result r = Success" "outTracks r = [[?t0, ?t1]]"
    by blast
  from r(2) have ok: "result r \<noteq> Failed" "result r \<noteq> Cancelled" by simp_all
  from Import_deinterleaves [OF stereo_handle_def contract r(1) ok]
  obtain m chans where
    len: "length chans = unat (WavpackGetNumChannels stereo_ctx)"
    and out: "outTracks r = (if chans = [] then [] else [chans])"
    and each: "\<forall>chn<length chans. format (chans ! chn) =
              (if sint (WavpackGetBitsPerSample stereo_ctx) \<le> 16 then int16Sample
               else if sint (WavpackGetBitsPerSample stereo_ctx) \<le> 24 then int24Sample
               else floatSample)
          \<and> rate (chans ! chn) = WavpackGetSampleRate stereo_ctx
          \<and> flushed (chans ! chn)
          \<and> samples (chans ! chn) = channel_sequence stereo_handle chn m
          \<and> samples (chans ! chn) =
              concat (map (\<lambda>k. map (\<lambda>f. cells_written stereo_handle k ! (f * length chans + chn))
                                   [0..<unat (frames_read stereo_handle k)]) [0..<m])"
    by blast
  from len have len2: "length chans = 2" by (simp add: stereo_ctx_def)
  then have "chans \<noteq> []" by auto
  with out r(3) have chans: "chans = [?t0, ?t1]" by simp
  from each len2 have "samples (chans ! 0) = channel_sequence stereo_handle 0 m"
    "samples (chans ! 1) = channel_sequence stereo_handle 1 m"
    by simp_all
  with chans have "channel_sequence stereo_handle 0 m = [10, 11, 12]"
    "channel_sequence stereo_handle 1 m = [20, 21, 22]"
    by simp_all
  with contract r show ?thesis by blast
qed

subsection \<open>What the tag store receives\<close>



end
